theory Spec2Isabelle
  imports Complex_Main
begin

section \<open>Build-time page data of the project detail page\<close>

text \<open>
  The page module exports two build-time functions: \<open>getStaticPaths\<close>, which lists one
  path per project and locale, and \<open>getStaticProps\<close>, which assembles the data of one
  page. Both are embedded below as functions of the data they read from the outside.
\<close>

subsection \<open>Feature collections\<close>

text \<open>
  The request helpers return GeoJSON feature collections. A feature carries a
  \<open>properties\<close> object and a \<open>geometry\<close>; every properties object used by the page has
  a \<open>project_id\<close>.
\<close>

record HasProjectId =
  project_id :: string

record ('p, 'g) Feature =
  properties :: 'p
  geometry :: 'g

record 'f FeatureCollection =
  features :: "'f list"

subsection \<open>Path enumeration\<close>

record PathParams =
  id :: string
  "locale" :: string

record StaticPath =
  params :: PathParams

record StaticPaths =
  paths :: "StaticPath list"
  fallback :: bool

text \<open>
  \<open>locales\<close> stands for \<open>i18nextConfig.i18n.locales\<close>, \<open>projects\<close> for the awaited result
  of \<open>getProjectCentroids()\<close>. \<open>Array.prototype.flatMap\<close> maps and flattens one level.
\<close>

definition flatMap :: "('a \<Rightarrow> 'b list) \<Rightarrow> 'a list \<Rightarrow> 'b list" where
  "flatMap f xs = concat (map f xs)"

definition getStaticPaths ::
  "string list \<Rightarrow> (('z HasProjectId_scheme, 'g) Feature) FeatureCollection \<Rightarrow> StaticPaths" where
  "getStaticPaths locales projects =
     (let pathsWithParams =
        flatMap (\<lambda>feature.
          let withLocales =
            map (\<lambda>lng. \<lparr>params = \<lparr>id = project_id (properties feature), locale = lng\<rparr>\<rparr>) locales
          in withLocales) (features projects)
      in \<lparr>paths = pathsWithParams, fallback = False\<rparr>)"

subsection \<open>Values that may be absent, and numbers\<close>

text \<open>
  A TypeScript type \<open>T | null | undefined\<close>. The nullish coalescing operator \<open>a ?? b\<close>
  yields \<open>b\<close> exactly when \<open>a\<close> is \<open>null\<close> or \<open>undefined\<close>.
\<close>

datatype 'a nullish = Undefined | Null | Present 'a

definition coalesce :: "'a nullish \<Rightarrow> 'a \<Rightarrow> 'a" where
  "coalesce a b = (case a of Present v \<Rightarrow> v | _ \<Rightarrow> b)"

definition coalesce_null :: "'a nullish \<Rightarrow> 'a nullish" where
  \<comment> \<open>\<open>a ?? null\<close>\<close>
  "coalesce_null a = (case a of Present v \<Rightarrow> Present v | _ \<Rightarrow> Null)"

text \<open>
  A JavaScript number is an IEEE 754 double. A finite one is given here by its value, a
  rational: the signed zero is outside this model. The product of two numbers is the
  exact product rounded to the nearest double, of two equally near ones to the one with
  the even significand, and to infinity from \<open>2^1024 - 2^970\<close> on.
\<close>

datatype number = NaN | Infinity | NegInfinity | Finite rat

function ilog2 :: "int \<Rightarrow> int" where
  \<comment> \<open>the integer part of the binary logarithm of a positive integer\<close>
  "ilog2 n = (if n < 2 then 0 else 1 + ilog2 (n div 2))"
  by pat_completeness auto
termination
  by (relation "measure nat") auto

declare ilog2.simps [simp del]

definition pow2 :: "int \<Rightarrow> rat" where
  "pow2 k = (if 0 \<le> k then 2 ^ nat k else 1 / 2 ^ nat (- k))"

definition floor_log2 :: "rat \<Rightarrow> int" where
  \<comment> \<open>for positive \<open>q\<close>, the \<open>e\<close> with \<open>2^e \<le> q < 2^(e+1)\<close>\<close>
  "floor_log2 q =
     (let e = ilog2 (fst (quotient_of q)) - ilog2 (snd (quotient_of q))
      in if pow2 e \<le> q then e else e - 1)"

definition roundTiesToEven :: "rat \<Rightarrow> int" where
  "roundTiesToEven x =
     (let f = \<lfloor>x\<rfloor>; d = x - of_int f
      in if d < 1 / 2 then f else if 1 / 2 < d then f + 1 else if even f then f else f + 1)"

definition toDouble :: "rat \<Rightarrow> number" where
  \<comment> \<open>the double nearest to a real value: 53 bits of significand, exponents from -1022
     (below it the spacing of the subnormal numbers, \<open>2^-1074\<close>) to 1023\<close>
  "toDouble q =
     (if q = 0 then Finite 0
      else
        let a = \<bar>q\<bar>;
            e = max (floor_log2 a) (- 1022);
            ulp = pow2 (e - 52);
            r = of_int (roundTiesToEven (a / ulp)) * ulp
        in if pow2 1024 \<le> r then (if 0 < q then Infinity else NegInfinity)
           else Finite (if 0 < q then r else - r))"

definition multiply :: "number \<Rightarrow> number \<Rightarrow> number" where
  \<comment> \<open>\<open>a * b\<close>\<close>
  "multiply a b =
     (case (a, b) of
        (Finite x, Finite y) \<Rightarrow> toDouble (x * y)
      | (NaN, _) \<Rightarrow> NaN
      | (_, NaN) \<Rightarrow> NaN
      | (Finite x, Infinity) \<Rightarrow> (if x = 0 then NaN else if 0 < x then Infinity else NegInfinity)
      | (Finite x, NegInfinity) \<Rightarrow> (if x = 0 then NaN else if 0 < x then NegInfinity else Infinity)
      | (Infinity, Finite y) \<Rightarrow> (if y = 0 then NaN else if 0 < y then Infinity else NegInfinity)
      | (NegInfinity, Finite y) \<Rightarrow> (if y = 0 then NaN else if 0 < y then NegInfinity else Infinity)
      | (Infinity, Infinity) \<Rightarrow> Infinity
      | (NegInfinity, NegInfinity) \<Rightarrow> Infinity
      | (Infinity, NegInfinity) \<Rightarrow> NegInfinity
      | (NegInfinity, Infinity) \<Rightarrow> NegInfinity)"

text \<open>
  \<open>Math.round\<close> returns the integer closest to its argument, and of two equally close
  integers the one nearer to plus infinity.
\<close>

definition Math_round :: "number \<Rightarrow> number" where
  "Math_round a = (case a of Finite x \<Rightarrow> Finite (of_int \<lfloor>x + 1 / 2\<rfloor>) | _ \<Rightarrow> a)"

subsection \<open>Conversion of a string to a number\<close>

text \<open>
  \<open>Number(s)\<close> on a string follows the StringToNumber grammar of the language: white
  space around the literal is ignored, the empty literal is 0, a literal is a signed
  decimal (with optional fraction and exponent), a signed \<open>Infinity\<close>, or an unsigned
  binary, octal or hexadecimal integer; every other string is \<open>NaN\<close>. Of the white space
  characters only the ASCII ones are modelled, and the value of a literal is taken as
  it is written, without rounding it to a double.
\<close>

definition isStrWhiteSpaceChar :: "char \<Rightarrow> bool" where
  "isStrWhiteSpaceChar c \<longleftrightarrow>
     c = CHR 0x09 \<or> c = CHR 0x0A \<or> c = CHR 0x0B \<or> c = CHR 0x0C \<or> c = CHR 0x0D \<or> c = CHR '' ''"

definition trim :: "string \<Rightarrow> string" where
  "trim s = rev (dropWhile isStrWhiteSpaceChar (rev (dropWhile isStrWhiteSpaceChar s)))"

definition hexDigit :: "char \<Rightarrow> nat option" where
  "hexDigit = map_of
     [(CHR ''0'', 0), (CHR ''1'', 1), (CHR ''2'', 2), (CHR ''3'', 3), (CHR ''4'', 4),
      (CHR ''5'', 5), (CHR ''6'', 6), (CHR ''7'', 7), (CHR ''8'', 8), (CHR ''9'', 9),
      (CHR ''a'', 10), (CHR ''b'', 11), (CHR ''c'', 12), (CHR ''d'', 13), (CHR ''e'', 14),
      (CHR ''f'', 15), (CHR ''A'', 10), (CHR ''B'', 11), (CHR ''C'', 12), (CHR ''D'', 13),
      (CHR ''E'', 14), (CHR ''F'', 15)]"

definition digitOf :: "nat \<Rightarrow> char \<Rightarrow> nat option" where
  \<comment> \<open>the value of a digit of the given base\<close>
  "digitOf base c = (case hexDigit c of Some d \<Rightarrow> if d < base then Some d else None | None \<Rightarrow> None)"

definition isDecimalDigit :: "char \<Rightarrow> bool" where
  "isDecimalDigit c \<longleftrightarrow> digitOf 10 c \<noteq> None"

definition digitsValue :: "nat \<Rightarrow> nat list \<Rightarrow> nat" where
  "digitsValue base ds = foldl (\<lambda>a d. base * a + d) 0 ds"

definition parseDigits :: "nat \<Rightarrow> string \<Rightarrow> nat option" where
  \<comment> \<open>one or more digits of the base, and nothing else\<close>
  "parseDigits base s =
     (if s = [] then None else map_option (digitsValue base) (those (map (digitOf base) s)))"

definition parseSignedInteger :: "string \<Rightarrow> int option" where
  "parseSignedInteger s =
     (case s of
        c # ds \<Rightarrow>
          if c = CHR ''+'' then map_option int (parseDigits 10 ds)
          else if c = CHR ''-'' then map_option (\<lambda>n. - int n) (parseDigits 10 ds)
          else map_option int (parseDigits 10 s)
      | [] \<Rightarrow> None)"

definition scale10 :: "nat \<Rightarrow> int \<Rightarrow> rat" where
  "scale10 m k = (if 0 \<le> k then of_nat m * 10 ^ nat k else of_nat m / 10 ^ nat (- k))"

definition parseUnsignedDecimal :: "string \<Rightarrow> number option" where
  "parseUnsignedDecimal s =
     (if s = ''Infinity'' then Some Infinity
      else
        let ip = takeWhile isDecimalDigit s;
            r1 = dropWhile isDecimalDigit s;
            fp = (case r1 of c # t \<Rightarrow> if c = CHR ''.'' then takeWhile isDecimalDigit t else [] | [] \<Rightarrow> []);
            r2 = (case r1 of c # t \<Rightarrow> if c = CHR ''.'' then dropWhile isDecimalDigit t else r1 | [] \<Rightarrow> [])
        in (case parseDigits 10 (ip @ fp) of
              None \<Rightarrow> None
            | Some m \<Rightarrow>
                (case r2 of
                   [] \<Rightarrow> Some (Finite (scale10 m (- int (length fp))))
                 | c # e \<Rightarrow>
                     if c = CHR ''e'' \<or> c = CHR ''E''
                     then map_option (\<lambda>k. Finite (scale10 m (k - int (length fp)))) (parseSignedInteger e)
                     else None)))"

definition negate :: "number \<Rightarrow> number" where
  "negate a = (case a of NaN \<Rightarrow> NaN | Infinity \<Rightarrow> NegInfinity | NegInfinity \<Rightarrow> Infinity
               | Finite x \<Rightarrow> Finite (- x))"

definition parseDecimal :: "string \<Rightarrow> number option" where
  "parseDecimal s =
     (case s of
        c # t \<Rightarrow>
          if c = CHR ''+'' then parseUnsignedDecimal t
          else if c = CHR ''-'' then map_option negate (parseUnsignedDecimal t)
          else parseUnsignedDecimal s
      | [] \<Rightarrow> None)"

definition parseNonDecimal :: "string \<Rightarrow> number option" where
  "parseNonDecimal s =
     (case s of
        z # p # ds \<Rightarrow>
          if z \<noteq> CHR ''0'' then None
          else if p = CHR ''b'' \<or> p = CHR ''B'' then map_option (\<lambda>n. Finite (of_nat n)) (parseDigits 2 ds)
          else if p = CHR ''o'' \<or> p = CHR ''O'' then map_option (\<lambda>n. Finite (of_nat n)) (parseDigits 8 ds)
          else if p = CHR ''x'' \<or> p = CHR ''X'' then map_option (\<lambda>n. Finite (of_nat n)) (parseDigits 16 ds)
          else None
      | _ \<Rightarrow> None)"

definition Number :: "string \<Rightarrow> number" where
  "Number s =
     (let t = trim s
      in if t = [] then Finite 0
         else (case parseNonDecimal t of
                 Some n \<Rightarrow> n
               | None \<Rightarrow> (case parseDecimal t of Some n \<Rightarrow> n | None \<Rightarrow> NaN)))"

subsection \<open>Rendering the project description\<close>

text \<open>
  The description of a project arrives as markdown behind a frontmatter header. The page
  splits the header off with \<open>matter\<close> (gray-matter), replaces every literal backslash
  followed by \<open>n\<close> in the body by a line feed, and hands the result to
  \<open>remark().use(html)\<close>. The replacement is the page's own code. The two libraries are
  not among the sources: they are parameters of the model, total functions on strings
  of which nothing more is assumed, so an input on which a library throws is outside
  it. Of the object that \<open>matter\<close> returns the page reads only \<open>content\<close>.
\<close>

definition LF :: char where
  "LF = CHR 0x0A"

definition backslash :: char where
  "backslash = CHR 0x5C"

fun replace_escaped_newlines :: "string \<Rightarrow> string" where
  \<comment> \<open>\<open>s.replace(/\\n/g, '\n')\<close>: all matches, left to right, without overlap\<close>
  "replace_escaped_newlines (a # b # cs) =
     (if a = backslash \<and> b = CHR ''n'' then LF # replace_escaped_newlines cs
      else a # replace_escaped_newlines (b # cs))"
| "replace_escaped_newlines cs = cs"

record MatterResult =
  content :: string

record Libraries =
  matter :: "string \<Rightarrow> MatterResult"
  remark_html :: "string \<Rightarrow> string"

definition contentHtml :: "Libraries \<Rightarrow> string \<Rightarrow> string" where
  \<comment> \<open>\<open>matter(project_details)\<close>, then \<open>remark().use(html).process(content.replace(...))\<close>\<close>
  "contentHtml libs project_details =
     (let matterResult = matter libs project_details;
          processedContent = remark_html libs (replace_escaped_newlines (content matterResult))
      in processedContent)"

subsection \<open>The project catalogue\<close>

text \<open>
  \<open>ProjectStatus\<close> is declared in \<open>utils/common\<close>, which is not among the sources. Its
  values are string literals, and the page passes the status through unchanged, so it is
  taken as the string it is at run time.
\<close>

type_synonym ProjectStatus = string

text \<open>
  The properties of a feature of \<open>getProjectCentroids()\<close>, as far as the page reads them.
\<close>

record ProjectProperties = HasProjectId +
  name :: string
  status :: ProjectStatus
  progress :: "number nullish"
  area_sqkm :: "number nullish"
  number_of_users :: "number nullish"
  project_details :: string

subsection \<open>Errors and promises\<close>

text \<open>
  An exception thrown or a promise rejected is a value of \<open>error\<close>; a computation that may
  throw returns \<open>error + 'a\<close> with the error on the left. \<open>Error\<close> is what the page
  throws itself, the other two are what a request may be rejected with.
\<close>

datatype error = Error string | TypeError string | TimeoutError

definition await :: "error + 'a \<Rightarrow> ('a \<Rightarrow> error + 'b) \<Rightarrow> error + 'b" where
  \<comment> \<open>\<open>const x = await p; rest\<close>: a rejection of \<open>p\<close> is thrown and ends the function\<close>
  "await p rest = (case p of Inl e \<Rightarrow> Inl e | Inr x \<Rightarrow> rest x)"

text \<open>
  A promise that is already under way: the moment it settles and what it settles with.
  Every promise of this model settles; the moments order the promises that run
  concurrently.
\<close>

record 'a Promise =
  settledAt :: nat
  outcome :: "error + 'a"

definition then_map :: "('a \<Rightarrow> 'b) \<Rightarrow> 'a Promise \<Rightarrow> 'b Promise" where
  \<comment> \<open>an async function that awaits \<open>p\<close> and returns \<open>f\<close> of its value\<close>
  "then_map f p = \<lparr>settledAt = settledAt p, outcome = map_sum (\<lambda>e. e) f (outcome p)\<rparr>"

definition rejections :: "'a Promise list \<Rightarrow> error list" where
  "rejections ps = List.map_filter (\<lambda>p. case outcome p of Inl e \<Rightarrow> Some e | Inr v \<Rightarrow> None) ps"

definition fulfilments :: "'a Promise list \<Rightarrow> 'a list" where
  "fulfilments ps = List.map_filter (\<lambda>p. case outcome p of Inl e \<Rightarrow> None | Inr v \<Rightarrow> Some v) ps"

definition Promise_all :: "'a Promise list \<Rightarrow> error + 'a list" where
  \<comment> \<open>\<open>await Promise.all(ps)\<close>: rejected with the reason of the first promise to reject (of
     two that settle at the same moment the earlier in the array), otherwise fulfilled
     with the values in the order of the array\<close>
  "Promise_all ps =
     (case rejections (sort_key settledAt ps) of
        e # es \<Rightarrow> Inl e
      | [] \<Rightarrow> Inr (fulfilments ps))"

subsection \<open>The download catalogue and its probes\<close>

datatype DownloadType =
    aggregated_results
  | aggregated_results_with_geometry
  | hot_tasking_manager_geometries
  | moderate_to_high_agreement_yes_maybe_geometries
  | groups
  | history
  | results
  | tasks
  | users
  | area_of_interest

datatype DownloadFileType = geojson | csv

record Response =
  ok :: bool
  headers :: "string \<Rightarrow> string nullish"

record UrlDescriptor =
  name :: DownloadType
  type :: DownloadFileType
  url :: string

record UrlInfo = UrlDescriptor +
  ok :: bool
  size :: number

definition urlDescriptors :: "string \<Rightarrow> UrlDescriptor list" where
  \<comment> \<open>the constant \<open>urls\<close> of \<open>getStaticProps\<close>\<close>
  "urlDescriptors projectId =
     [\<lparr>name = aggregated_results,
       type = csv,
       url = ''https://apps.mapswipe.org/api/agg_results/agg_results_'' @ projectId @ ''.csv.gz''\<rparr>,
      \<lparr>name = aggregated_results_with_geometry,
       type = geojson,
       url = ''https://apps.mapswipe.org/api/agg_results/agg_results_'' @ projectId @ ''_geom.geojson.gz''\<rparr>,
      \<lparr>name = hot_tasking_manager_geometries,
       type = geojson,
       url = ''https://apps.mapswipe.org/api/hot_tm/hot_tm_'' @ projectId @ ''.geojson''\<rparr>,
      \<lparr>name = moderate_to_high_agreement_yes_maybe_geometries,
       type = geojson,
       url = ''https://apps.mapswipe.org/api/yes_maybe/yes_maybe_'' @ projectId @ ''.geojson''\<rparr>,
      \<lparr>name = groups,
       type = geojson,
       url = ''https://apps.mapswipe.org/api/groups/groups_'' @ projectId @ ''.csv.gz''\<rparr>,
      \<lparr>name = history,
       type = geojson,
       url = ''https://apps.mapswipe.org/api/history/history_'' @ projectId @ ''.csv''\<rparr>,
      \<lparr>name = results,
       type = geojson,
       url = ''https://apps.mapswipe.org/api/results/results_'' @ projectId @ ''.csv.gz''\<rparr>,
      \<lparr>name = tasks,
       type = geojson,
       url = ''https://apps.mapswipe.org/api/tasks/tasks_'' @ projectId @ ''.csv.gz''\<rparr>,
      \<lparr>name = users,
       type = geojson,
       url = ''https://apps.mapswipe.org/api/users/users_'' @ projectId @ ''.csv.gz''\<rparr>,
      \<lparr>name = area_of_interest,
       type = geojson,
       url = ''https://apps.mapswipe.org/api/project_geometries/project_geom_'' @ projectId @ ''.geojson''\<rparr>]"

definition urlInfo :: "UrlDescriptor \<Rightarrow> Response \<Rightarrow> UrlInfo" where
  \<comment> \<open>\<open>{ ...url, ok: res.ok, size: Number(res.headers.get('content-length') ?? '0') }\<close>\<close>
  "urlInfo u res =
     \<lparr>name = name u, type = type u, url = url u,
      ok = Response.ok res,
      size = Number (coalesce (headers res ''content-length'') ''0'')\<rparr>"

definition urlResponsePromises ::
  "(string \<Rightarrow> string \<Rightarrow> Response Promise) \<Rightarrow> UrlDescriptor list \<Rightarrow> UrlInfo Promise list" where
  \<comment> \<open>\<open>fetch u m\<close> is the request \<open>fetch(u, { method: m })\<close>\<close>
  "urlResponsePromises fetch us = map (\<lambda>u. then_map (urlInfo u) (fetch (url u) ''HEAD'')) us"

subsection \<open>The page data\<close>

text \<open>
  \<open>translations\<close> stands for the fields that \<open>...translations\<close> spreads into the props.
\<close>

record ('t, 'g, 'h) Props =
  "translations" :: 't
  totalProgress :: "number nullish"
  totalArea :: number
  totalContributors :: "number nullish"
  name :: string
  description :: string
  status :: ProjectStatus
  projectGeoJSON :: "'g nullish"
  history :: 'h
  urls :: "UrlInfo list"

record ('t, 'g, 'h) StaticProps =
  props :: "('t, 'g, 'h) Props"

text \<open>
  What one build of a page reads from the outside: the translation bundles, the three
  request helpers of \<open>utils/requests\<close> and the asset host behind \<open>fetch\<close>.
\<close>

record ('t, 'c, 'g, 'h) Upstream =
  serverSideTranslations :: "string \<Rightarrow> string list \<Rightarrow> error + 't"
  getProjectCentroids :: "error + ((ProjectProperties, 'c) Feature) FeatureCollection"
  getProjectGeometries :: "error + ((HasProjectId, 'g) Feature) FeatureCollection"
  getProjectHistory :: "string \<Rightarrow> error + 'h"
  fetch :: "string \<Rightarrow> string \<Rightarrow> Response Promise"

definition findProject ::
  "string \<Rightarrow> (('z HasProjectId_scheme, 'g) Feature) FeatureCollection
     \<Rightarrow> ('z HasProjectId_scheme, 'g) Feature option" where
  \<comment> \<open>\<open>collection.features.find((feature) => feature.properties.project_id === projectId)\<close>\<close>
  "findProject projectId collection =
     find (\<lambda>feature. project_id (properties feature) = projectId) (features collection)"

text \<open>
  The build calls \<open>getStaticProps\<close> with the paths that \<open>getStaticPaths\<close> listed, so the
  context carries \<open>params\<close> with both strings. The awaited calls come in the order of the
  source; the first one to fail ends the function with its error. \<open>libs\<close> are the two
  libraries that render the description.
\<close>

definition getStaticProps ::
  "Libraries \<Rightarrow> ('t, 'c, 'g, 'h) Upstream \<Rightarrow> StaticPath \<Rightarrow> error + ('t, 'g, 'h) StaticProps" where
  "getStaticProps libs upstream context =
     (let locale = PathParams.locale (params context);
          projectId = PathParams.id (params context)
      in
     await (serverSideTranslations upstream locale [''project'', ''common'']) (\<lambda>translations.
     await (getProjectCentroids upstream) (\<lambda>projects.
     case findProject projectId projects of
       None \<Rightarrow> Inl (Error (''Could not get project '' @ projectId))
     | Some project \<Rightarrow>
     await (getProjectGeometries upstream) (\<lambda>geojsons.
     let geojson = (case findProject projectId geojsons of
                      None \<Rightarrow> Undefined
                    | Some feature \<Rightarrow> Present (geometry feature))
     in
     await (getProjectHistory upstream (project_id (properties project))) (\<lambda>historyJSON.
     let contentHtml = contentHtml libs (project_details (properties project)) in
     await (Promise_all (urlResponsePromises (fetch upstream) (urlDescriptors projectId))) (\<lambda>urlResponses.
     Inr \<lparr>props =
       \<lparr>translations = translations,
        totalProgress =
          (case progress (properties project) of
             Present p \<Rightarrow> Present (Math_round (multiply p (Finite 100)))
           | _ \<Rightarrow> Null),
        totalArea = Math_round (coalesce (area_sqkm (properties project)) (Finite 0)),
        totalContributors = coalesce_null (number_of_users (properties project)),
        name = ProjectProperties.name (properties project),
        description = contentHtml,
        status = ProjectProperties.status (properties project),
        projectGeoJSON = coalesce_null geojson,
        history = historyJSON,
        urls = urlResponses\<rparr>\<rparr>))))))"

subsection \<open>Auxiliary definitions\<close>

text \<open>
  Names for parts of \<open>getStaticProps\<close> that the statements below refer to: the identifiers
  of a collection, the optional geometry \<open>find(...)?.geometry\<close>, the object that a
  successful build returns, and a predicate on text.
\<close>

definition project_ids :: "(('z HasProjectId_scheme, 'g) Feature) FeatureCollection \<Rightarrow> string list" where
  \<comment> \<open>the identifiers of a collection, in its order\<close>
  "project_ids collection = map (\<lambda>feature. project_id (properties feature)) (features collection)"

definition findGeometry :: "string \<Rightarrow> (('z HasProjectId_scheme, 'g) Feature) FeatureCollection \<Rightarrow> 'g nullish" where
  "findGeometry projectId geojsons =
     (case findProject projectId geojsons of None \<Rightarrow> Undefined | Some feature \<Rightarrow> Present (geometry feature))"

definition assemble ::
  "Libraries \<Rightarrow> 't \<Rightarrow> (ProjectProperties, 'c) Feature \<Rightarrow> 'g nullish \<Rightarrow> 'h \<Rightarrow> UrlInfo list
     \<Rightarrow> ('t, 'g, 'h) StaticProps" where
  "assemble libs t project g h rs =
     \<lparr>props =
       \<lparr>translations = t,
        totalProgress =
          (case progress (properties project) of
             Present p \<Rightarrow> Present (Math_round (multiply p (Finite 100)))
           | _ \<Rightarrow> Null),
        totalArea = Math_round (coalesce (area_sqkm (properties project)) (Finite 0)),
        totalContributors = coalesce_null (number_of_users (properties project)),
        name = ProjectProperties.name (properties project),
        description = contentHtml libs (project_details (properties project)),
        status = ProjectProperties.status (properties project),
        projectGeoJSON = coalesce_null g,
        history = h,
        urls = rs\<rparr>\<rparr>"

fun containsEscapedNewline :: "string \<Rightarrow> bool" where
  "containsEscapedNewline (a # b # cs) \<longleftrightarrow>
     (a = backslash \<and> b = CHR ''n'') \<or> containsEscapedNewline (b # cs)"
| "containsEscapedNewline cs \<longleftrightarrow> False"

definition probeResult ::
  "nat \<Rightarrow> error + ('t, 'g, 'h) StaticProps \<Rightarrow> error + bool \<times> number" where
  "probeResult i r = map_sum (\<lambda>e. e) (\<lambda>sp. (UrlInfo.ok (urls (props sp) ! i), UrlInfo.size (urls (props sp) ! i))) r"

subsection \<open>Sample data\<close>

text \<open>
  A catalogue of two projects, a geometry collection that knows only the first, and an
  asset host. The numbers of the first project are the doubles that the literals 0.4567
  and 12.3 denote. \<open>sampleLibraries\<close> stands in for the two libraries: it splits no
  header off and returns the markdown as it is. For project \<open>b\<close> the host answers the
  third probe with a non-success status and a content length, the fourth with a
  non-success status and no content length, and the sixth with a content length that
  is not a number. \<open>failingFetch\<close> rejects the ninth probe instead of answering it;
  \<open>reorderedFetch\<close> answers as \<open>sampleFetch\<close> does, in the opposite order.
\<close>

definition sampleLocales :: "string list" where
  "sampleLocales = [''en'', ''de'']"

definition sampleProjectA :: "(ProjectProperties, unit) Feature" where
  "sampleProjectA =
     \<lparr>properties =
        \<lparr>project_id = ''a'', ProjectProperties.name = ''Alpha'', ProjectProperties.status = ''active'',
         progress = Present (toDouble (4567 / 10000)),
         area_sqkm = Present (toDouble (123 / 10)),
         number_of_users = Present (Finite 7),
         project_details =
           ''---'' @ [LF] @ ''title: x'' @ [LF] @ ''---'' @ [LF] @ ''# Hello'' @ [LF] @ ''World''\<rparr>,
      geometry = ()\<rparr>"

definition sampleProjectB :: "(ProjectProperties, unit) Feature" where
  "sampleProjectB =
     \<lparr>properties =
        \<lparr>project_id = ''b'', ProjectProperties.name = ''Beta'', ProjectProperties.status = ''finished'',
         progress = Null,
         area_sqkm = Undefined,
         number_of_users = Undefined,
         project_details = ''Plain''\<rparr>,
      geometry = ()\<rparr>"

definition sampleProjects :: "((ProjectProperties, unit) Feature) FeatureCollection" where
  "sampleProjects = \<lparr>features = [sampleProjectA, sampleProjectB]\<rparr>"

definition sampleGeometries :: "((HasProjectId, nat) Feature) FeatureCollection" where
  "sampleGeometries = \<lparr>features = [\<lparr>properties = \<lparr>project_id = ''a''\<rparr>, geometry = 1\<rparr>]\<rparr>"

definition contentLength :: "string \<Rightarrow> string \<Rightarrow> string nullish" where
  "contentLength v h = (if h = ''content-length'' then Present v else Null)"

definition sampleFetch :: "string \<Rightarrow> string \<Rightarrow> Response Promise" where
  "sampleFetch u m =
     (if u = ''https://apps.mapswipe.org/api/hot_tm/hot_tm_b.geojson''
      then \<lparr>settledAt = 1, outcome = Inr \<lparr>Response.ok = False, headers = contentLength ''1234''\<rparr>\<rparr>
      else if u = ''https://apps.mapswipe.org/api/yes_maybe/yes_maybe_b.geojson''
      then \<lparr>settledAt = 9, outcome = Inr \<lparr>Response.ok = False, headers = (\<lambda>h. Null)\<rparr>\<rparr>
      else if u = ''https://apps.mapswipe.org/api/history/history_b.csv''
      then \<lparr>settledAt = 5, outcome = Inr \<lparr>Response.ok = True, headers = contentLength ''abc''\<rparr>\<rparr>
      else \<lparr>settledAt = 3, outcome = Inr \<lparr>Response.ok = True, headers = contentLength ''2048''\<rparr>\<rparr>)"

definition failingFetch :: "string \<Rightarrow> string \<Rightarrow> Response Promise" where
  "failingFetch u m =
     (if u = ''https://apps.mapswipe.org/api/users/users_b.csv.gz''
      then \<lparr>settledAt = 2, outcome = Inl (TypeError ''fetch failed'')\<rparr>
      else sampleFetch u m)"

definition reorderedFetch :: "string \<Rightarrow> string \<Rightarrow> Response Promise" where
  "reorderedFetch u m = (sampleFetch u m)\<lparr>settledAt := 10 - settledAt (sampleFetch u m)\<rparr>"

definition sampleLibraries :: Libraries where
  "sampleLibraries = \<lparr>matter = (\<lambda>s. \<lparr>content = s\<rparr>), remark_html = (\<lambda>s. s)\<rparr>"

definition sampleUpstream :: "(string \<times> string list, unit, nat, nat list) Upstream" where
  "sampleUpstream =
     \<lparr>serverSideTranslations = (\<lambda>lng namespaces. Inr (lng, namespaces)),
      getProjectCentroids = Inr sampleProjects,
      getProjectGeometries = Inr sampleGeometries,
      getProjectHistory = (\<lambda>projectId. Inr [length projectId]),
      fetch = sampleFetch\<rparr>"

definition contextOf :: "string \<Rightarrow> string \<Rightarrow> StaticPath" where
  "contextOf projectId lng = \<lparr>params = \<lparr>id = projectId, locale = lng\<rparr>\<rparr>"

section \<open>Properties\<close>

subsection \<open>Evaluation on the sample data\<close>

lemmas sample_defs = sampleUpstream_def contextOf_def sampleProjects_def sampleProjectA_def sampleProjectB_def
  sampleGeometries_def sampleFetch_def failingFetch_def contentLength_def

lemmas Number_defs = Number_def trim_def isStrWhiteSpaceChar_def parseNonDecimal_def parseDecimal_def
  parseUnsignedDecimal_def parseSignedInteger_def parseDigits_def isDecimalDigit_def digitOf_def hexDigit_def
  digitsValue_def scale10_def negate_def Let_def

lemmas run_defs = getStaticProps_def await_def findProject_def Promise_all_def rejections_def fulfilments_def
  urlResponsePromises_def urlDescriptors_def then_map_def urlInfo_def coalesce_def
  coalesce_null_def

lemma Number_zero: "Number ''0'' = Finite 0"
  by (simp add: Number_defs)

subsection \<open>Promise.all\<close>

lemma rejections_empty_iff:
  "rejections ps = [] \<longleftrightarrow> (\<forall>p \<in> set ps. \<not> isl (outcome p))"
  by (induction ps) (auto simp: rejections_def List.map_filter_simps split: sum.splits)

lemma rejections_sort_key_empty_iff:
  "rejections (sort_key settledAt ps) = [] \<longleftrightarrow> rejections ps = []"
  by (simp add: rejections_empty_iff)

lemma rejections_subset:
  "e \<in> set (rejections ps) \<longleftrightarrow> (\<exists>p \<in> set ps. outcome p = Inl e)"
  by (induction ps) (auto simp: rejections_def List.map_filter_simps split: sum.splits)

lemma fulfilments_all:
  "rejections ps = [] \<Longrightarrow> map Inr (fulfilments ps) = map outcome ps"
  by (induction ps) (auto simp: rejections_def fulfilments_def List.map_filter_simps split: sum.splits)

lemma Promise_all_Inr_iff:
  "Promise_all ps = Inr vs \<longleftrightarrow> map outcome ps = map Inr vs"
proof
  assume "Promise_all ps = Inr vs"
  then have "rejections ps = []" and "fulfilments ps = vs"
    by (auto simp: Promise_all_def rejections_sort_key_empty_iff split: list.splits)
  then show "map outcome ps = map Inr vs"
    using fulfilments_all [of ps] by simp
next
  assume m: "map outcome ps = map Inr vs"
  then have "\<forall>p \<in> set ps. \<not> isl (outcome p)"
    by (metis (no_types, lifting) imageE image_eqI list.set_map sum.disc(2))
  then have r: "rejections ps = []"
    by (simp add: rejections_empty_iff)
  with fulfilments_all [of ps] m have "map Inr (fulfilments ps) = map Inr vs"
    by simp
  then have "fulfilments ps = vs"
    by (simp add: inj_map_eq_map)
  moreover from r have "rejections (sort_key settledAt ps) = []"
    by (simp add: rejections_sort_key_empty_iff)
  ultimately show "Promise_all ps = Inr vs"
    by (simp add: Promise_all_def)
qed

lemma Promise_all_Inl:
  "Promise_all ps = Inl e \<Longrightarrow> \<exists>p \<in> set ps. outcome p = Inl e"
proof -
  assume "Promise_all ps = Inl e"
  then have "e \<in> set (rejections (sort_key settledAt ps))"
    by (auto simp: Promise_all_def split: list.splits)
  then show ?thesis
    by (simp add: rejections_subset)
qed

lemma Promise_all_rejects:
  assumes "p \<in> set ps" and "isl (outcome p)"
  shows "isl (Promise_all ps)"
proof (cases "Promise_all ps")
  case (Inl e)
  then show ?thesis by simp
next
  case (Inr vs)
  then have "map outcome ps = map Inr vs"
    by (simp add: Promise_all_Inr_iff)
  then have "set (map outcome ps) = set (map Inr vs)"
    by simp
  with assms(1) have "outcome p \<in> Inr ` set vs"
    by auto
  with assms(2) show ?thesis
    by auto
qed

subsection \<open>The prober\<close>

lemma outcome_urlResponsePromises:
  "map outcome (urlResponsePromises f us) =
     map (\<lambda>u. map_sum (\<lambda>e. e) (urlInfo u) (outcome (f (url u) ''HEAD''))) us"
  by (simp add: urlResponsePromises_def then_map_def)

lemma map_sum_eq_Inr_iff:
  "map_sum (\<lambda>e. e) g x = Inr y \<longleftrightarrow> (\<exists>res. x = Inr res \<and> y = g res)"
  by (cases x) auto

lemma prober_Inr_iff:
  "Promise_all (urlResponsePromises f us) = Inr rs \<longleftrightarrow>
     length rs = length us \<and>
     (\<forall>i < length us. \<exists>res. outcome (f (url (us ! i)) ''HEAD'') = Inr res
                              \<and> rs ! i = urlInfo (us ! i) res)"
  unfolding Promise_all_Inr_iff outcome_urlResponsePromises list_eq_iff_nth_eq
  by (auto simp: map_sum_eq_Inr_iff)

lemma length_urlDescriptors: "length (urlDescriptors projectId) = 10"
  by (simp add: urlDescriptors_def)

lemma truncate_urlInfo: "UrlDescriptor.truncate (urlInfo u res) = u"
  by (simp add: urlInfo_def UrlDescriptor.truncate_def)

lemma prober_catalogue_order:
  assumes "Promise_all (urlResponsePromises f us) = Inr rs"
  shows "map UrlDescriptor.truncate rs = us"
proof (rule nth_equalityI)
  from assms show "length (map UrlDescriptor.truncate rs) = length us"
    by (simp add: prober_Inr_iff)
next
  fix i
  assume "i < length (map UrlDescriptor.truncate rs)"
  with assms have i: "i < length us" and l: "length rs = length us"
    by (simp_all add: prober_Inr_iff)
  with assms obtain res where "rs ! i = urlInfo (us ! i) res"
    unfolding prober_Inr_iff by blast
  with i l show "map UrlDescriptor.truncate rs ! i = us ! i"
    by (simp add: truncate_urlInfo)
qed

lemma prober_all_fulfilled:
  assumes "\<forall>i < length us. \<not> isl (outcome (f (url (us ! i)) ''HEAD''))"
  shows "Promise_all (urlResponsePromises f us) =
           Inr (map (\<lambda>u. urlInfo u (projr (outcome (f (url u) ''HEAD'')))) us)"
  unfolding prober_Inr_iff
proof (intro conjI allI impI)
  show "length (map (\<lambda>u. urlInfo u (projr (outcome (f (url u) ''HEAD'')))) us) = length us"
    by simp
next
  fix i
  assume i: "i < length us"
  with assms have "\<not> isl (outcome (f (url (us ! i)) ''HEAD''))"
    by simp
  then obtain res where "outcome (f (url (us ! i)) ''HEAD'') = Inr res"
    by (cases "outcome (f (url (us ! i)) ''HEAD'')") auto
  with i show "\<exists>res. outcome (f (url (us ! i)) ''HEAD'') = Inr res \<and>
      map (\<lambda>u. urlInfo u (projr (outcome (f (url u) ''HEAD'')))) us ! i = urlInfo (us ! i) res"
    by simp
qed

lemma prober_rejected:
  assumes "i < length us" and "outcome (f (url (us ! i)) ''HEAD'') = Inl e"
  shows "\<exists>e' j. j < length us \<and> outcome (f (url (us ! j)) ''HEAD'') = Inl e'
           \<and> Promise_all (urlResponsePromises f us) = Inl e'"
proof -
  let ?ps = "urlResponsePromises f us"
  from assms(1) have "i < length ?ps"
    by (simp add: urlResponsePromises_def)
  then have "?ps ! i \<in> set ?ps"
    by (rule nth_mem)
  moreover from assms have "isl (outcome (?ps ! i))"
    by (simp add: urlResponsePromises_def then_map_def)
  ultimately have "?ps ! i \<in> set ?ps" and "isl (outcome (?ps ! i))"
    by blast+
  then have "isl (Promise_all ?ps)"
    by (rule Promise_all_rejects)
  then obtain e' where e': "Promise_all ?ps = Inl e'"
    by (cases "Promise_all ?ps") auto
  then obtain p where "p \<in> set ?ps" and p: "outcome p = Inl e'"
    by (blast dest: Promise_all_Inl)
  then obtain j where j: "j < length us" and "p = ?ps ! j"
    by (auto simp: in_set_conv_nth urlResponsePromises_def)
  with p have "map_sum (\<lambda>e. e) (urlInfo (us ! j)) (outcome (f (url (us ! j)) ''HEAD'')) = Inl e'"
    by (simp add: urlResponsePromises_def then_map_def)
  then have "outcome (f (url (us ! j)) ''HEAD'') = Inl e'"
    by (cases "outcome (f (url (us ! j)) ''HEAD'')") auto
  with j e' show ?thesis
    by blast
qed

subsection \<open>The steps of getStaticProps\<close>

lemma getStaticProps_unfold:
  "getStaticProps libs w ctx =
     await (serverSideTranslations w (locale (params ctx)) [''project'', ''common'']) (\<lambda>t.
     await (getProjectCentroids w) (\<lambda>projects.
     case findProject (PathParams.id (params ctx)) projects of
       None \<Rightarrow> Inl (Error (''Could not get project '' @ PathParams.id (params ctx)))
     | Some project \<Rightarrow>
     await (getProjectGeometries w) (\<lambda>geojsons.
     await (getProjectHistory w (project_id (properties project))) (\<lambda>h.
     await (Promise_all (urlResponsePromises (fetch w) (urlDescriptors (PathParams.id (params ctx))))) (\<lambda>rs.
     Inr (assemble libs t project (findGeometry (PathParams.id (params ctx)) geojsons) h rs))))))"
  unfolding getStaticProps_def assemble_def findGeometry_def Let_def ..

lemma getStaticProps_InrI:
  assumes "serverSideTranslations w (locale (params ctx)) [''project'', ''common''] = Inr t"
    and "getProjectCentroids w = Inr projects"
    and "findProject (PathParams.id (params ctx)) projects = Some project"
    and "getProjectGeometries w = Inr geojsons"
    and "getProjectHistory w (project_id (properties project)) = Inr h"
    and "Promise_all (urlResponsePromises (fetch w) (urlDescriptors (PathParams.id (params ctx)))) = Inr rs"
  shows "getStaticProps libs w ctx = Inr (assemble libs t project (findGeometry (PathParams.id (params ctx)) geojsons) h rs)"
  unfolding getStaticProps_unfold await_def using assms by simp

lemma getStaticProps_InrE:
  assumes "getStaticProps libs w ctx = Inr sp"
  obtains t projects project geojsons h rs where
    "serverSideTranslations w (locale (params ctx)) [''project'', ''common''] = Inr t"
    and "getProjectCentroids w = Inr projects"
    and "findProject (PathParams.id (params ctx)) projects = Some project"
    and "getProjectGeometries w = Inr geojsons"
    and "getProjectHistory w (project_id (properties project)) = Inr h"
    and "Promise_all (urlResponsePromises (fetch w) (urlDescriptors (PathParams.id (params ctx)))) = Inr rs"
    and "sp = assemble libs t project (findGeometry (PathParams.id (params ctx)) geojsons) h rs"
proof -
  from assms obtain t where 1: "serverSideTranslations w (locale (params ctx)) [''project'', ''common''] = Inr t"
    unfolding getStaticProps_unfold await_def by (simp split: sum.splits)
  from assms 1 obtain projects where 2: "getProjectCentroids w = Inr projects"
    unfolding getStaticProps_unfold await_def by (simp split: sum.splits)
  from assms 1 2 obtain project where 3: "findProject (PathParams.id (params ctx)) projects = Some project"
    unfolding getStaticProps_unfold await_def by (simp split: option.splits)
  from assms 1 2 3 obtain geojsons where 4: "getProjectGeometries w = Inr geojsons"
    unfolding getStaticProps_unfold await_def by (simp split: sum.splits)
  from assms 1 2 3 4 obtain h where 5: "getProjectHistory w (project_id (properties project)) = Inr h"
    unfolding getStaticProps_unfold await_def by (simp split: sum.splits)
  from assms 1 2 3 4 5 obtain rs where 6:
    "Promise_all (urlResponsePromises (fetch w) (urlDescriptors (PathParams.id (params ctx)))) = Inr rs"
    unfolding getStaticProps_unfold await_def by (simp split: sum.splits)
  from assms 1 2 3 4 5 6 have "sp = assemble libs t project (findGeometry (PathParams.id (params ctx)) geojsons) h rs"
    unfolding getStaticProps_unfold await_def by simp
  with 1 2 3 4 5 6 show thesis
    by (rule that)
qed

lemma getStaticProps_urls:
  assumes "getStaticProps libs w ctx = Inr sp"
  shows "Promise_all (urlResponsePromises (fetch w) (urlDescriptors (PathParams.id (params ctx)))) =
           Inr (urls (props sp))"
  using assms by (elim getStaticProps_InrE) (simp add: assemble_def)

lemma getStaticProps_project:
  assumes "getStaticProps libs w ctx = Inr sp"
    and "getProjectCentroids w = Inr projects"
    and "findProject (PathParams.id (params ctx)) projects = Some project"
  shows "\<exists>t g h rs. sp = assemble libs t project g h rs"
  using assms by (elim getStaticProps_InrE) auto

lemma findProject_None_iff:
  "findProject projectId collection = None \<longleftrightarrow> projectId \<notin> set (project_ids collection)"
  by (auto simp: findProject_def project_ids_def find_None_iff)

lemma findGeometry_absent:
  "projectId \<notin> set (project_ids geojsons) \<Longrightarrow> findGeometry projectId geojsons = Undefined"
  by (simp add: findGeometry_def findProject_None_iff [symmetric])

lemma Math_round_nearest:
  "\<exists>k::int. Math_round (Finite x) = Finite (of_int k) \<and> \<bar>of_int k - x\<bar> \<le> 1 / 2"
proof -
  have "\<bar>of_int \<lfloor>x + 1 / 2\<rfloor> - x\<bar> \<le> 1 / 2"
    by linarith
  then show ?thesis
    by (auto simp: Math_round_def)
qed

subsection \<open>Runs on the sample data\<close>

lemma sampleFetch_fulfilled: "\<not> isl (outcome (sampleFetch u m))"
  by (simp add: sampleFetch_def)

lemma sample_snapshot:
  "serverSideTranslations sampleUpstream (locale (params (contextOf i lng))) [''project'', ''common''] =
     Inr (lng, [''project'', ''common''])"
  "getProjectCentroids sampleUpstream = Inr sampleProjects"
  "getProjectGeometries sampleUpstream = Inr sampleGeometries"
  "getProjectHistory sampleUpstream j = Inr [length j]"
  "fetch sampleUpstream = sampleFetch"
  "PathParams.id (params (contextOf i lng)) = i"
  by (simp_all add: sampleUpstream_def contextOf_def)

lemma sample_findProject:
  "findProject ''a'' sampleProjects = Some sampleProjectA"
  "findProject ''b'' sampleProjects = Some sampleProjectB"
  "findProject ''z'' sampleProjects = None"
  by (simp_all add: findProject_def sampleProjects_def sampleProjectA_def sampleProjectB_def)

lemma sample_run_a: "\<exists>sp. getStaticProps sampleLibraries sampleUpstream (contextOf ''a'' lng) = Inr sp"
proof -
  have "Promise_all (urlResponsePromises (fetch sampleUpstream) (urlDescriptors ''a'')) =
      Inr (map (\<lambda>u. urlInfo u (projr (outcome (fetch sampleUpstream (url u) ''HEAD'')))) (urlDescriptors ''a''))"
    by (rule prober_all_fulfilled) (simp add: sample_snapshot sampleFetch_fulfilled)
  then show ?thesis
    using getStaticProps_InrI [of sampleUpstream "contextOf ''a'' lng", OF sample_snapshot(1) sample_snapshot(2)]
    by (simp add: sample_snapshot sample_findProject)
qed

lemma sample_run_b: "\<exists>sp. getStaticProps sampleLibraries sampleUpstream (contextOf ''b'' lng) = Inr sp"
proof -
  have "Promise_all (urlResponsePromises (fetch sampleUpstream) (urlDescriptors ''b'')) =
      Inr (map (\<lambda>u. urlInfo u (projr (outcome (fetch sampleUpstream (url u) ''HEAD'')))) (urlDescriptors ''b''))"
    by (rule prober_all_fulfilled) (simp add: sample_snapshot sampleFetch_fulfilled)
  then show ?thesis
    using getStaticProps_InrI [of sampleUpstream "contextOf ''b'' lng", OF sample_snapshot(1) sample_snapshot(2)]
    by (simp add: sample_snapshot sample_findProject)
qed

subsection \<open>Failing probes\<close>

text \<open>
  C1, as amended. Let the translations, the catalogue, the geometries and the history be
  fetched and the project be in the catalogue. If every probe is answered, with whatever
  status, the build does not throw: it returns its record with ten results, and the
  result of each probe carries the \<open>ok\<close> flag of its own response (false for a
  non-success status) and as size the number read from the content-length header of that
  response, 0 standing in for an absent header.
\<close>

theorem getStaticProps_probe_failures:
  assumes "serverSideTranslations w (locale (params ctx)) [''project'', ''common''] = Inr t"
    and "getProjectCentroids w = Inr projects"
    and "findProject (PathParams.id (params ctx)) projects = Some project"
    and "getProjectGeometries w = Inr geojsons"
    and "getProjectHistory w (project_id (properties project)) = Inr h"
    and "\<forall>i < 10. \<not> isl (outcome (fetch w (url (urlDescriptors (PathParams.id (params ctx)) ! i)) ''HEAD''))"
  shows "\<exists>sp. getStaticProps libs w ctx = Inr sp \<and> length (urls (props sp)) = 10 \<and>
           (\<forall>i < 10. \<forall>res.
              outcome (fetch w (url (urlDescriptors (PathParams.id (params ctx)) ! i)) ''HEAD'') = Inr res \<longrightarrow>
                UrlInfo.ok (urls (props sp) ! i) = Response.ok res \<and>
                UrlInfo.size (urls (props sp) ! i) =
                  Number (coalesce (headers res ''content-length'') ''0''))"
proof -
  let ?us = "urlDescriptors (PathParams.id (params ctx))"
  let ?rs = "map (\<lambda>u. urlInfo u (projr (outcome (fetch w (url u) ''HEAD'')))) ?us"
  from assms(6) have "Promise_all (urlResponsePromises (fetch w) ?us) = Inr ?rs"
    by (intro prober_all_fulfilled) (simp add: length_urlDescriptors)
  with assms(1-5) have sp: "getStaticProps libs w ctx =
      Inr (assemble libs t project (findGeometry (PathParams.id (params ctx)) geojsons) h ?rs)"
    by (rule getStaticProps_InrI)
  have "\<forall>i < 10. \<forall>res. outcome (fetch w (url (?us ! i)) ''HEAD'') = Inr res \<longrightarrow>
      UrlInfo.ok (?rs ! i) = Response.ok res \<and>
      UrlInfo.size (?rs ! i) = Number (coalesce (headers res ''content-length'') ''0'')"
    by (simp add: length_urlDescriptors urlInfo_def)
  with sp show ?thesis
    by (simp add: assemble_def length_urlDescriptors)
qed

theorem getStaticProps_probe_failures_witness:
  "\<exists>sp. getStaticProps sampleLibraries sampleUpstream (contextOf ''b'' ''en'') = Inr sp
      \<and> length (urls (props sp)) = 10
      \<and> UrlInfo.ok (urls (props sp) ! 3) = False
      \<and> UrlInfo.size (urls (props sp) ! 3) = Finite 0
      \<and> UrlInfo.ok (urls (props sp) ! 4) = True"
proof -
  let ?ctx = "contextOf ''b'' ''en''"
  have f: "findProject (PathParams.id (params ?ctx)) sampleProjects = Some sampleProjectB"
    by (simp add: sample_snapshot sample_findProject)
  have h: "getProjectHistory sampleUpstream (project_id (properties sampleProjectB)) =
      Inr [length (project_id (properties sampleProjectB))]"
    by (rule sample_snapshot)
  have a: "\<forall>i < 10. \<not> isl (outcome (fetch sampleUpstream (url (urlDescriptors (PathParams.id (params ?ctx)) ! i)) ''HEAD''))"
    by (simp add: sample_snapshot sampleFetch_fulfilled)
  from getStaticProps_probe_failures [OF sample_snapshot(1) sample_snapshot(2) f sample_snapshot(3) h a]
  obtain sp where sp: "getStaticProps sampleLibraries sampleUpstream ?ctx = Inr sp"
    and l: "length (urls (props sp)) = 10"
    and r: "\<forall>i < 10. \<forall>res.
        outcome (fetch sampleUpstream (url (urlDescriptors (PathParams.id (params ?ctx)) ! i)) ''HEAD'') = Inr res \<longrightarrow>
          UrlInfo.ok (urls (props sp) ! i) = Response.ok res \<and>
          UrlInfo.size (urls (props sp) ! i) = Number (coalesce (headers res ''content-length'') ''0'')"
    by blast
  have "outcome (fetch sampleUpstream (url (urlDescriptors (PathParams.id (params ?ctx)) ! 3)) ''HEAD'') =
      Inr \<lparr>Response.ok = False, headers = (\<lambda>h. Null)\<rparr>"
    and "outcome (fetch sampleUpstream (url (urlDescriptors (PathParams.id (params ?ctx)) ! 4)) ''HEAD'') =
      Inr \<lparr>Response.ok = True, headers = contentLength ''2048''\<rparr>"
    by (simp_all add: sample_snapshot urlDescriptors_def sampleFetch_def)
  with r have "UrlInfo.ok (urls (props sp) ! 3) = False"
    and "UrlInfo.size (urls (props sp) ! 3) = Number (coalesce Null ''0'')"
    and "UrlInfo.ok (urls (props sp) ! 4) = True"
    by auto
  then have "UrlInfo.ok (urls (props sp) ! 3) = False" and "UrlInfo.size (urls (props sp) ! 3) = Finite 0"
    and "UrlInfo.ok (urls (props sp) ! 4) = True"
    by (simp_all add: coalesce_def Number_zero)
  with sp l show ?thesis
    by (intro exI [of _ sp]) simp
qed

text \<open>
  A request that is rejected (a network error, a timeout) is caught nowhere:
  \<open>Promise.all\<close> rejects and the build fails with the error of a rejected probe.
\<close>

lemma getStaticProps_rejected_probe:
  assumes "serverSideTranslations w (locale (params ctx)) [''project'', ''common''] = Inr t"
    and "getProjectCentroids w = Inr projects"
    and "findProject (PathParams.id (params ctx)) projects = Some project"
    and "getProjectGeometries w = Inr geojsons"
    and "getProjectHistory w (project_id (properties project)) = Inr h"
    and "i < 10"
    and "outcome (fetch w (url (urlDescriptors (PathParams.id (params ctx)) ! i)) ''HEAD'') = Inl e"
  shows "\<exists>e' j. j < 10
           \<and> outcome (fetch w (url (urlDescriptors (PathParams.id (params ctx)) ! j)) ''HEAD'') = Inl e'
           \<and> getStaticProps libs w ctx = Inl e'"
proof -
  let ?us = "urlDescriptors (PathParams.id (params ctx))"
  from assms(6,7) obtain e' j where j: "j < 10" and o: "outcome (fetch w (url (?us ! j)) ''HEAD'') = Inl e'"
    and p: "Promise_all (urlResponsePromises (fetch w) ?us) = Inl e'"
    using prober_rejected [of i ?us "fetch w" e] by (auto simp: length_urlDescriptors)
  from assms(1-5) p have "getStaticProps libs w ctx = Inl e'"
    unfolding getStaticProps_unfold await_def by simp
  with j o show ?thesis
    by blast
qed

text \<open>
  C1 as it is stated fails twice on the sample host: the build throws when the ninth
  request is rejected although the other nine are answered, and the third probe, answered
  with a non-success status and a content length of 1234, records the size 1234 and not 0.
\<close>

theorem getStaticProps_probe_rejection_counterexample:
  "getStaticProps sampleLibraries (sampleUpstream\<lparr>fetch := failingFetch\<rparr>) (contextOf ''b'' ''en'') =
     Inl (TypeError ''fetch failed'')
   \<and> probeResult 2 (getStaticProps sampleLibraries sampleUpstream (contextOf ''b'' ''en'')) = Inr (False, Finite 1234)"
proof
  show "getStaticProps sampleLibraries (sampleUpstream\<lparr>fetch := failingFetch\<rparr>) (contextOf ''b'' ''en'') =
     Inl (TypeError ''fetch failed'')"
    by (simp add: run_defs sample_defs)
next
  have "Number ''1234'' = Finite 1234"
    by (simp add: Number_defs)
  then show "probeResult 2 (getStaticProps sampleLibraries sampleUpstream (contextOf ''b'' ''en'')) = Inr (False, Finite 1234)"
    by (simp add: probeResult_def run_defs sample_defs)
qed

subsection \<open>A project that is not in the catalogue\<close>

text \<open>
  C2. When the catalogue is fetched and holds no record with the identifier of the page,
  \<open>getStaticProps\<close> ends in an error and returns no props; once the translations are
  loaded, the error is \<open>Could not get project\<close> followed by the identifier.
\<close>

theorem getStaticProps_not_found:
  assumes "getProjectCentroids w = Inr projects"
    and "PathParams.id (params ctx) \<notin> set (project_ids projects)"
  shows "isl (getStaticProps libs w ctx)
     \<and> (\<forall>t. serverSideTranslations w (locale (params ctx)) [''project'', ''common''] = Inr t \<longrightarrow>
           getStaticProps libs w ctx = Inl (Error (''Could not get project '' @ PathParams.id (params ctx))))"
proof -
  from assms(2) have n: "findProject (PathParams.id (params ctx)) projects = None"
    by (simp add: findProject_None_iff)
  have "\<not> (\<exists>sp. getStaticProps libs w ctx = Inr sp)"
  proof
    assume "\<exists>sp. getStaticProps libs w ctx = Inr sp"
    then obtain sp where "getStaticProps libs w ctx = Inr sp" ..
    then show False
      using assms(1) n by (elim getStaticProps_InrE) simp
  qed
  then have "isl (getStaticProps libs w ctx)"
    by (cases "getStaticProps libs w ctx") auto
  moreover have "\<forall>t. serverSideTranslations w (locale (params ctx)) [''project'', ''common''] = Inr t \<longrightarrow>
           getStaticProps libs w ctx = Inl (Error (''Could not get project '' @ PathParams.id (params ctx)))"
    unfolding getStaticProps_unfold await_def using assms(1) n by simp
  ultimately show ?thesis ..
qed

theorem getStaticProps_not_found_witness:
  "getStaticProps sampleLibraries sampleUpstream (contextOf ''z'' ''en'') = Inl (Error ''Could not get project z'')"
proof -
  have "PathParams.id (params (contextOf ''z'' ''en'')) \<notin> set (project_ids sampleProjects)"
    by (simp add: sample_snapshot project_ids_def sampleProjects_def sampleProjectA_def sampleProjectB_def)
  from getStaticProps_not_found [OF sample_snapshot(2) this] show ?thesis
    by (simp add: sample_snapshot)
qed

subsection \<open>Ten results in catalogue order\<close>

text \<open>
  C3. Whenever the prober returns a list, whatever the moments at which the requests
  settle and whatever their status, the list has ten entries, and stripped of \<open>ok\<close> and
  \<open>size\<close> it is the list of descriptors of the project, in the order of the catalogue,
  from \<open>aggregated_results\<close> to \<open>area_of_interest\<close>. The same holds of the \<open>urls\<close> of the
  props that a build returns.
\<close>

theorem prober_ten_results_in_catalogue_order:
  "(\<forall>rs. Promise_all (urlResponsePromises f (urlDescriptors projectId)) = Inr rs \<longrightarrow>
       length rs = 10 \<and> map UrlDescriptor.truncate rs = urlDescriptors projectId)
   \<and> (\<forall>sp. getStaticProps libs w ctx = Inr sp \<longrightarrow>
       length (urls (props sp)) = 10
       \<and> map UrlDescriptor.truncate (urls (props sp)) = urlDescriptors (PathParams.id (params ctx)))
   \<and> map UrlDescriptor.name (urlDescriptors projectId) =
       [aggregated_results, aggregated_results_with_geometry, hot_tasking_manager_geometries,
        moderate_to_high_agreement_yes_maybe_geometries, groups, DownloadType.history, results, tasks,
        users, area_of_interest]"
proof (intro conjI allI impI)
  fix rs
  assume a: "Promise_all (urlResponsePromises f (urlDescriptors projectId)) = Inr rs"
  then show "length rs = 10"
    by (simp add: prober_Inr_iff length_urlDescriptors)
  from a show "map UrlDescriptor.truncate rs = urlDescriptors projectId"
    by (rule prober_catalogue_order)
next
  fix sp
  assume "getStaticProps libs w ctx = Inr sp"
  then have p: "Promise_all (urlResponsePromises (fetch w) (urlDescriptors (PathParams.id (params ctx)))) =
      Inr (urls (props sp))"
    by (rule getStaticProps_urls)
  then show "length (urls (props sp)) = 10"
    by (simp add: prober_Inr_iff length_urlDescriptors)
  from p show "map UrlDescriptor.truncate (urls (props sp)) = urlDescriptors (PathParams.id (params ctx))"
    by (rule prober_catalogue_order)
next
  show "map UrlDescriptor.name (urlDescriptors projectId) =
       [aggregated_results, aggregated_results_with_geometry, hot_tasking_manager_geometries,
        moderate_to_high_agreement_yes_maybe_geometries, groups, DownloadType.history, results, tasks,
        users, area_of_interest]"
    by (simp add: urlDescriptors_def)
qed

theorem prober_ten_results_in_catalogue_order_witness:
  "\<exists>sp. getStaticProps sampleLibraries sampleUpstream (contextOf ''b'' ''en'') = Inr sp
      \<and> length (urls (props sp)) = 10
      \<and> map UrlDescriptor.name (urls (props sp)) =
          [aggregated_results, aggregated_results_with_geometry, hot_tasking_manager_geometries,
           moderate_to_high_agreement_yes_maybe_geometries, groups, DownloadType.history, results, tasks,
           users, area_of_interest]"
proof -
  from sample_run_b obtain sp where sp: "getStaticProps sampleLibraries sampleUpstream (contextOf ''b'' ''en'') = Inr sp"
    by blast
  note t = prober_ten_results_in_catalogue_order
    [where f = sampleFetch and projectId = "''b''" and libs = sampleLibraries and w = sampleUpstream
       and ctx = "contextOf ''b'' ''en''"]
  from t sp have l: "length (urls (props sp)) = 10"
    and m: "map UrlDescriptor.truncate (urls (props sp)) = urlDescriptors ''b''"
    by (simp_all add: sample_snapshot)
  from t have n: "map UrlDescriptor.name (urlDescriptors ''b'') =
          [aggregated_results, aggregated_results_with_geometry, hot_tasking_manager_geometries,
           moderate_to_high_agreement_yes_maybe_geometries, groups, DownloadType.history, results, tasks,
           users, area_of_interest]"
    by blast
  have "map UrlDescriptor.name (urls (props sp)) = map UrlDescriptor.name (map UrlDescriptor.truncate (urls (props sp)))"
    by (simp add: UrlDescriptor.truncate_def)
  with m n have "map UrlDescriptor.name (urls (props sp)) =
          [aggregated_results, aggregated_results_with_geometry, hot_tasking_manager_geometries,
           moderate_to_high_agreement_yes_maybe_geometries, groups, DownloadType.history, results, tasks,
           users, area_of_interest]"
    by simp
  with sp l show ?thesis
    by (intro exI [of _ sp]) simp
qed

subsection \<open>Path enumeration\<close>

lemma paths_getStaticPaths:
  "paths (getStaticPaths locales projects) =
     concat (map (\<lambda>i. map (\<lambda>lng. \<lparr>params = \<lparr>id = i, locale = lng\<rparr>\<rparr>) locales) (project_ids projects))"
  by (simp add: getStaticPaths_def flatMap_def project_ids_def Let_def comp_def)

lemma length_concat_map_const:
  "length (concat (map (\<lambda>i. map (g i) ls) is)) = length is * length ls"
  by (induction "is") simp_all

lemma nth_concat_map_const:
  "m < length is \<Longrightarrow> n < length ls \<Longrightarrow>
     concat (map (\<lambda>i. map (g i) ls) is) ! (m * length ls + n) = g (is ! m) (ls ! n)"
proof (induction "is" arbitrary: m)
  case Nil
  then show ?case by simp
next
  case (Cons i "is")
  show ?case
  proof (cases m)
    case 0
    with Cons.prems show ?thesis by (simp add: nth_append)
  next
    case (Suc k)
    with Cons.prems have "k < length is" by simp
    from Cons.IH [OF this Cons.prems(2)] Suc show ?thesis
      by (simp add: nth_append add.assoc)
  qed
qed

lemma count_list_paths_of_project:
  "count_list (map (\<lambda>lng. \<lparr>params = \<lparr>id = i, locale = lng\<rparr>\<rparr>) ls) \<lparr>params = \<lparr>id = j, locale = l\<rparr>\<rparr> =
     (if i = j then count_list ls l else 0)"
  by (induction ls) auto

lemma count_list_append_sum: "count_list (xs @ ys) x = count_list xs x + count_list ys x"
  by (induction xs) auto

lemma count_list_concat_paths:
  "count_list (concat (map (\<lambda>i. map (\<lambda>lng. \<lparr>params = \<lparr>id = i, locale = lng\<rparr>\<rparr>) ls) is))
       \<lparr>params = \<lparr>id = j, locale = l\<rparr>\<rparr> =
     count_list is j * count_list ls l"
  by (induction "is") (simp_all add: count_list_append_sum count_list_paths_of_project)

lemma count_list_distinct: "distinct xs \<Longrightarrow> count_list xs x = (if x \<in> set xs then 1 else 0)"
  by (induction xs) auto

lemma distinct_concat_paths:
  assumes "distinct is" "distinct ls"
  shows "distinct (concat (map (\<lambda>i. map (\<lambda>lng. \<lparr>params = \<lparr>id = i, locale = lng\<rparr>\<rparr>) ls) is))"
  using assms by (induction "is") (auto simp: distinct_map inj_on_def)

text \<open>
  C4. For a catalogue of M records and a list of N locale codes, \<open>getStaticPaths\<close> lists
  exactly N * M paths: the path at position m * N + n is that of the m-th record and the
  n-th locale, and a pair of an identifier and a locale is listed as many times as the
  identifier occurs in the catalogue times the locale occurs in the list. So when the
  identifiers of the catalogue are distinct (one record per project identifier) and the
  locale codes are distinct, every pair of a catalogued identifier and a supported locale
  is listed exactly once, and no other pair is listed.
\<close>

theorem getStaticPaths_product:
  "length (paths (getStaticPaths locales projects)) = length locales * length (features projects)
   \<and> (\<forall>m n. m < length (features projects) \<and> n < length locales \<longrightarrow>
          paths (getStaticPaths locales projects) ! (m * length locales + n) =
            \<lparr>params = \<lparr>id = project_ids projects ! m, locale = locales ! n\<rparr>\<rparr>)
   \<and> (\<forall>i l. count_list (paths (getStaticPaths locales projects)) \<lparr>params = \<lparr>id = i, locale = l\<rparr>\<rparr> =
          count_list (project_ids projects) i * count_list locales l)
   \<and> (distinct (project_ids projects) \<and> distinct locales \<longrightarrow>
        distinct (paths (getStaticPaths locales projects))
        \<and> (\<forall>i l. count_list (paths (getStaticPaths locales projects)) \<lparr>params = \<lparr>id = i, locale = l\<rparr>\<rparr> =
               (if i \<in> set (project_ids projects) \<and> l \<in> set locales then 1 else 0)))"
proof (intro conjI allI impI)
  show "length (paths (getStaticPaths locales projects)) = length locales * length (features projects)"
    unfolding paths_getStaticPaths length_concat_map_const by (simp add: project_ids_def)
next
  fix m n
  assume "m < length (features projects) \<and> n < length locales"
  then have "m < length (project_ids projects)" and "n < length locales"
    by (simp_all add: project_ids_def)
  then show "paths (getStaticPaths locales projects) ! (m * length locales + n) =
      \<lparr>params = \<lparr>id = project_ids projects ! m, locale = locales ! n\<rparr>\<rparr>"
    unfolding paths_getStaticPaths by (rule nth_concat_map_const)
next
  fix i l
  show "count_list (paths (getStaticPaths locales projects)) \<lparr>params = \<lparr>id = i, locale = l\<rparr>\<rparr> =
      count_list (project_ids projects) i * count_list locales l"
    unfolding paths_getStaticPaths by (rule count_list_concat_paths)
next
  assume "distinct (project_ids projects) \<and> distinct locales"
  then show "distinct (paths (getStaticPaths locales projects))"
    unfolding paths_getStaticPaths by (simp add: distinct_concat_paths)
next
  fix i l
  assume "distinct (project_ids projects) \<and> distinct locales"
  then show "count_list (paths (getStaticPaths locales projects)) \<lparr>params = \<lparr>id = i, locale = l\<rparr>\<rparr> =
      (if i \<in> set (project_ids projects) \<and> l \<in> set locales then 1 else 0)"
    unfolding paths_getStaticPaths count_list_concat_paths by (simp add: count_list_distinct)
qed

theorem getStaticPaths_product_witness:
  "length (paths (getStaticPaths sampleLocales sampleProjects)) = 4
   \<and> paths (getStaticPaths sampleLocales sampleProjects) ! 3 = \<lparr>params = \<lparr>id = ''b'', locale = ''de''\<rparr>\<rparr>
   \<and> distinct (paths (getStaticPaths sampleLocales sampleProjects))
   \<and> count_list (paths (getStaticPaths sampleLocales sampleProjects)) \<lparr>params = \<lparr>id = ''a'', locale = ''de''\<rparr>\<rparr> = 1
   \<and> count_list (paths (getStaticPaths sampleLocales sampleProjects)) \<lparr>params = \<lparr>id = ''z'', locale = ''de''\<rparr>\<rparr> = 0"
proof -
  have ids: "project_ids sampleProjects = [''a'', ''b'']"
    by (simp add: project_ids_def sampleProjects_def sampleProjectA_def sampleProjectB_def)
  have d: "distinct (project_ids sampleProjects) \<and> distinct sampleLocales"
    by (simp add: ids sampleLocales_def)
  have i: "(1::nat) < length (features sampleProjects) \<and> (1::nat) < length sampleLocales"
    by (simp add: sampleProjects_def sampleLocales_def)
  note t = getStaticPaths_product [of sampleLocales sampleProjects]
  from t have "length (paths (getStaticPaths sampleLocales sampleProjects)) =
      length sampleLocales * length (features sampleProjects)"
    by (rule conjunct1)
  moreover from t [THEN conjunct2, THEN conjunct1, THEN spec, THEN spec, of 1 1] i
  have "paths (getStaticPaths sampleLocales sampleProjects) ! (1 * length sampleLocales + 1) =
      \<lparr>params = \<lparr>id = project_ids sampleProjects ! 1, locale = sampleLocales ! 1\<rparr>\<rparr>"
    by (rule mp)
  moreover from t [THEN conjunct2, THEN conjunct2, THEN conjunct2] d
  have c: "distinct (paths (getStaticPaths sampleLocales sampleProjects))
      \<and> (\<forall>i l. count_list (paths (getStaticPaths sampleLocales sampleProjects)) \<lparr>params = \<lparr>id = i, locale = l\<rparr>\<rparr> =
             (if i \<in> set (project_ids sampleProjects) \<and> l \<in> set sampleLocales then 1 else 0))"
    by (rule mp)
  moreover have "length sampleLocales = 2" and "length (features sampleProjects) = 2"
    and "sampleLocales ! 1 = ''de''" and "''de'' \<in> set sampleLocales"
    by (simp_all add: sampleProjects_def sampleLocales_def)
  ultimately show ?thesis
    by (simp add: ids)
qed

subsection \<open>Progress and area\<close>

lemma ilog2_bounds:
  "0 < n \<Longrightarrow> 0 \<le> ilog2 n \<and> 2 ^ nat (ilog2 n) \<le> n \<and> n < 2 ^ nat (ilog2 n) * 2"
proof (induction n rule: ilog2.induct)
  case (1 n)
  show ?case
  proof (cases "n < 2")
    case True
    with "1.prems" have "n = 1" by simp
    then show ?thesis by (simp add: ilog2.simps)
  next
    case False
    then have h: "0 < n div 2" by simp
    from "1.IH" [OF False h] have ih: "0 \<le> ilog2 (n div 2)"
      "2 ^ nat (ilog2 (n div 2)) \<le> n div 2" "n div 2 < 2 ^ nat (ilog2 (n div 2)) * 2"
      by simp_all
    from False have e: "ilog2 n = 1 + ilog2 (n div 2)"
      by (subst ilog2.simps) simp
    from ih(1) have p: "(2::int) ^ nat (1 + ilog2 (n div 2)) = 2 ^ nat (ilog2 (n div 2)) * 2"
      by (simp add: nat_add_distrib)
    from ih(2) have "2 ^ nat (ilog2 (n div 2)) * 2 \<le> n"
      by linarith
    moreover from ih(3) have "n < 2 ^ nat (ilog2 (n div 2)) * 2 * 2"
      by linarith
    ultimately show ?thesis
      using ih(1) by (simp add: e p)
  qed
qed

lemma pow2_pos: "0 < pow2 k"
  by (simp add: pow2_def)

lemma pow2_Suc: "pow2 (k + 1) = pow2 k * 2"
proof (cases "0 \<le> k")
  case True
  then show ?thesis by (simp add: pow2_def nat_add_distrib)
next
  case False
  then have "nat (- k) = Suc (nat (- (k + 1)))" by simp
  with False show ?thesis by (simp add: pow2_def)
qed

lemma pow2_diff: "0 \<le> a \<Longrightarrow> 0 \<le> b \<Longrightarrow> pow2 (a - b) = 2 ^ nat a / 2 ^ nat b"
proof (induction "nat b" arbitrary: b)
  case 0
  then show ?case by (simp add: pow2_def)
next
  case (Suc m)
  then have b: "nat b = Suc (nat (b - 1))" and "m = nat (b - 1)" and "0 \<le> b - 1"
    by simp_all
  with Suc have "pow2 (a - (b - 1)) = 2 ^ nat a / 2 ^ nat (b - 1)"
    by simp
  moreover have "pow2 (a - (b - 1)) = pow2 (a - b) * 2"
    using pow2_Suc [of "a - b"] by (simp add: algebra_simps)
  ultimately show ?case
    by (simp add: b)
qed

lemma pow2_mono: "a \<le> b \<Longrightarrow> pow2 a \<le> pow2 b"
proof (induction "nat (b - a)" arbitrary: b)
  case 0
  then show ?case by simp
next
  case (Suc m)
  then have "m = nat (b - 1 - a)" and "a \<le> b - 1"
    by simp_all
  with Suc have "pow2 a \<le> pow2 (b - 1)"
    by simp
  also have "\<dots> \<le> pow2 (b - 1) * 2"
    using pow2_pos [of "b - 1"] by simp
  also have "\<dots> = pow2 b"
    using pow2_Suc [of "b - 1"] by simp
  finally show ?case .
qed

lemma floor_log2_bounds:
  assumes "0 < q"
  shows "pow2 (floor_log2 q) \<le> q \<and> q < pow2 (floor_log2 q + 1)"
proof -
  obtain a b where ab: "quotient_of q = (a, b)"
    by (cases "quotient_of q")
  then have b: "0 < b" and q: "q = of_int a / of_int b"
    by (simp_all add: quotient_of_denom_pos quotient_of_div)
  with assms have a: "0 < a"
    by (simp add: zero_less_divide_iff)
  let ?la = "ilog2 a" and ?lb = "ilog2 b"
  from a b have la: "0 \<le> ?la" "2 ^ nat ?la \<le> a" "a < 2 ^ nat ?la * 2"
    and lb: "0 \<le> ?lb" "2 ^ nat ?lb \<le> b" "b < 2 ^ nat ?lb * 2"
    using ilog2_bounds [of a] ilog2_bounds [of b] by simp_all
  have bq: "(0::rat) < of_int b"
    using b by simp
  from la(3) have "(of_int a :: rat) < of_int (2 ^ nat ?la * 2)"
    by (simp only: of_int_less_iff)
  then have au: "(of_int a :: rat) < 2 ^ nat ?la * 2"
    by simp
  from lb(2) have "(of_int (2 ^ nat ?lb) :: rat) \<le> of_int b"
    by (simp only: of_int_le_iff)
  then have bl: "(2 :: rat) ^ nat ?lb \<le> of_int b"
    by simp
  from la(2) have "(of_int (2 ^ nat ?la) :: rat) \<le> of_int a"
    by (simp only: of_int_le_iff)
  then have al: "(2 :: rat) ^ nat ?la \<le> of_int a"
    by simp
  from lb(3) have "(of_int b :: rat) < of_int (2 ^ nat ?lb * 2)"
    by (simp only: of_int_less_iff)
  then have bu: "(of_int b :: rat) < 2 ^ nat ?lb * 2"
    by simp
  have e: "pow2 (?la - ?lb) = 2 ^ nat ?la / 2 ^ nat ?lb"
    using la(1) lb(1) by (rule pow2_diff)
  have "q * 2 ^ nat ?lb \<le> q * of_int b"
    using bl assms by (simp add: mult_left_mono)
  also have "\<dots> = of_int a"
    using bq by (simp add: q)
  also have "\<dots> < 2 ^ nat ?la * 2"
    by (rule au)
  finally have "q < 2 ^ nat ?la * 2 / 2 ^ nat ?lb"
    by (simp add: pos_less_divide_eq)
  then have upper: "q < pow2 (?la - ?lb) * 2"
    by (simp add: e)
  have "(2 :: rat) ^ nat ?la \<le> of_int a"
    by (rule al)
  also have "\<dots> = q * of_int b"
    using bq by (simp add: q)
  also have "\<dots> < q * (2 ^ nat ?lb * 2)"
    using bu assms by (simp add: mult_strict_left_mono)
  finally have "2 ^ nat ?la / 2 ^ nat ?lb < q * 2"
    by (simp add: pos_divide_less_eq algebra_simps)
  then have lower: "pow2 (?la - ?lb) < q * 2"
    by (simp add: e)
  show ?thesis
  proof (cases "pow2 (?la - ?lb) \<le> q")
    case True
    then have "floor_log2 q = ?la - ?lb"
      by (simp add: floor_log2_def ab)
    with True upper show ?thesis
      by (simp add: pow2_Suc)
  next
    case False
    then have f: "floor_log2 q = ?la - ?lb - 1"
      by (simp add: floor_log2_def ab)
    have "pow2 (?la - ?lb) = pow2 (?la - ?lb - 1) * 2"
      using pow2_Suc [of "?la - ?lb - 1"] by simp
    with lower False show ?thesis
      by (simp add: f)
  qed
qed

lemma roundTiesToEven_near: "\<bar>of_int (roundTiesToEven x) - x\<bar> \<le> 1 / 2"
proof -
  have "of_int \<lfloor>x\<rfloor> \<le> x" and "x < of_int \<lfloor>x\<rfloor> + 1"
    by linarith+
  then show ?thesis
    by (auto simp: roundTiesToEven_def Let_def)
qed

lemma toDouble_near:
  assumes "toDouble q = Finite d" and "pow2 (- 1022) \<le> \<bar>q\<bar>"
  shows "\<bar>d - q\<bar> \<le> \<bar>q\<bar> / 2 ^ 53"
proof -
  let ?a = "\<bar>q\<bar>"
  from assms(2) have a: "0 < ?a"
    using pow2_pos [of "- 1022"] by linarith
  then have q0: "q \<noteq> 0"
    by simp
  let ?e = "floor_log2 ?a"
  from floor_log2_bounds [OF a] have lo: "pow2 ?e \<le> ?a" and up: "?a < pow2 (?e + 1)"
    by simp_all
  have "- 1022 < ?e + 1"
  proof (rule ccontr)
    assume "\<not> - 1022 < ?e + 1"
    then have "pow2 (?e + 1) \<le> pow2 (- 1022)"
      by (intro pow2_mono) simp
    with up assms(2) show False
      by linarith
  qed
  then have m: "max ?e (- 1022) = ?e"
    by simp
  let ?ulp = "pow2 (?e - 52)"
  let ?n = "roundTiesToEven (?a / ?ulp)"
  have u: "0 < ?ulp"
    by (rule pow2_pos)
  from assms(1) q0 have d: "d = (if 0 < q then of_int ?n * ?ulp else - (of_int ?n * ?ulp))"
    unfolding toDouble_def Let_def m by (simp split: if_splits)
  have "\<bar>of_int ?n - ?a / ?ulp\<bar> \<le> 1 / 2"
    by (rule roundTiesToEven_near)
  then have "\<bar>of_int ?n - ?a / ?ulp\<bar> * ?ulp \<le> 1 / 2 * ?ulp"
    using u by (simp add: mult_right_mono)
  moreover have "\<bar>of_int ?n - ?a / ?ulp\<bar> * ?ulp = \<bar>of_int ?n * ?ulp - ?a\<bar>"
  proof -
    have "\<bar>of_int ?n - ?a / ?ulp\<bar> * ?ulp = \<bar>(of_int ?n - ?a / ?ulp) * ?ulp\<bar>"
      using u by (simp add: abs_mult)
    also have "(of_int ?n - ?a / ?ulp) * ?ulp = of_int ?n * ?ulp - ?a"
      using u by (simp add: algebra_simps)
    finally show ?thesis .
  qed
  ultimately have r: "\<bar>of_int ?n * ?ulp - ?a\<bar> \<le> ?ulp / 2"
    by simp
  have "pow2 ?e = ?ulp * 2 ^ 52"
  proof -
    have "pow2 (k + 52) = pow2 k * 2 ^ 52" for k
    proof -
      have "pow2 (k + int n) = pow2 k * 2 ^ n" for n
      proof (induction n)
        case 0
        show ?case by simp
      next
        case (Suc n)
        have "k + int (Suc n) = k + int n + 1"
          by simp
        then have "pow2 (k + int (Suc n)) = pow2 (k + int n + 1)"
          by (rule arg_cong)
        also have "\<dots> = pow2 (k + int n) * 2"
          by (rule pow2_Suc)
        finally show ?case
          by (simp add: Suc)
      qed
      from this [of 52] show ?thesis by simp
    qed
    from this [of "?e - 52"] show ?thesis by simp
  qed
  with lo have "?ulp * 2 ^ 52 \<le> ?a"
    by simp
  then have "?ulp / 2 \<le> ?a / 2 ^ 53"
    by (simp add: field_simps)
  with r have "\<bar>of_int ?n * ?ulp - ?a\<bar> \<le> ?a / 2 ^ 53"
    by linarith
  moreover have "\<bar>d - q\<bar> = \<bar>of_int ?n * ?ulp - ?a\<bar>"
    using q0 by (cases "0 < q") (simp_all add: d abs_minus_commute)
  ultimately show ?thesis
    by simp
qed

lemma toDouble_0_4567: "toDouble (4567 / 10000) = Finite (4113587899640211 / 9007199254740992)"
  by code_simp

lemma toDouble_45_67:
  "toDouble (4113587899640211 / 9007199254740992 * 100) = Finite (3213740546593915 / 70368744177664)"
  by code_simp

lemma multiply_Finite: "multiply (Finite x) (Finite y) = toDouble (x * y)"
  by (simp add: multiply_def)

lemma Math_round_times_100:
  "Math_round (multiply (toDouble (4567 / 10000)) (Finite 100)) = Finite 46"
  unfolding toDouble_0_4567 multiply_Finite toDouble_45_67
  by (simp add: Math_round_def floor_eq_iff)

text \<open>
  The product is that of the doubles: the double that 0.015 denotes is below 0.015, its
  product with 100 is the double 1.5, and the percentage is 2.
\<close>

lemma toDouble_0_015: "toDouble (15 / 1000) = Finite (1080863910568919 / 72057594037927936)"
  by code_simp

lemma toDouble_1_5: "toDouble (1080863910568919 / 72057594037927936 * 100) = Finite (3 / 2)"
  by code_simp

lemma Math_round_times_100_tie:
  "multiply (toDouble (15 / 1000)) (Finite 100) = Finite (3 / 2)
   \<and> Math_round (multiply (toDouble (15 / 1000)) (Finite 100)) = Finite 2"
  unfolding toDouble_0_015 multiply_Finite toDouble_1_5
  by (simp add: Math_round_def floor_eq_iff)

lemma toDouble_12_3: "toDouble (123 / 10) = Finite (3462142213541069 / 281474976710656)"
  by code_simp

lemma Math_round_sample_area: "Math_round (toDouble (123 / 10)) = Finite 12"
  unfolding toDouble_12_3 by (simp add: Math_round_def floor_eq_iff)

text \<open>
  C5. The \<open>totalProgress\<close> of the props is \<open>null\<close> when the progress of the record is
  \<open>null\<close> or \<open>undefined\<close>, never 0; otherwise it is \<open>Math.round\<close> of the product of the
  progress and 100. For a finite progress with a finite product, it is an integer at
  distance at most one half from that product, and the product, a double, differs from
  the exact hundredfold of the progress by at most the \<open>2^53\<close>th part of it (the
  hundredfold being 0 or at least \<open>2^-1022\<close>). On the sample data 0.4567 gives 46.
\<close>

theorem getStaticProps_totalProgress:
  assumes "getStaticProps libs w ctx = Inr sp"
    and "getProjectCentroids w = Inr projects"
    and "findProject (PathParams.id (params ctx)) projects = Some project"
  shows "(progress (properties project) = Null \<or> progress (properties project) = Undefined \<longrightarrow>
            totalProgress (props sp) = Null)
     \<and> (\<forall>p. progress (properties project) = Present p \<longrightarrow>
            totalProgress (props sp) = Present (Math_round (multiply p (Finite 100))))
     \<and> (\<forall>x d. progress (properties project) = Present (Finite x)
              \<and> multiply (Finite x) (Finite 100) = Finite d \<longrightarrow>
            (\<exists>k::int. totalProgress (props sp) = Present (Finite (of_int k))
                      \<and> \<bar>of_int k - d\<bar> \<le> 1 / 2)
            \<and> (x = 0 \<or> pow2 (- 1022) \<le> \<bar>x * 100\<bar> \<longrightarrow> \<bar>d - x * 100\<bar> \<le> \<bar>x * 100\<bar> / 2 ^ 53))"
proof -
  from assms obtain t g h rs where sp: "sp = assemble libs t project g h rs"
    by (blast dest: getStaticProps_project)
  have n: "\<exists>k::int. Math_round (Finite d) = Finite (of_int k) \<and> \<bar>of_int k - d\<bar> \<le> 1 / 2" for d
    by (rule Math_round_nearest)
  have e: "\<bar>d - x * 100\<bar> \<le> \<bar>x * 100\<bar> / 2 ^ 53"
    if "multiply (Finite x) (Finite 100) = Finite d" and "x = 0 \<or> pow2 (- 1022) \<le> \<bar>x * 100\<bar>" for x d
  proof (cases "x = 0")
    case True
    with that(1) show ?thesis
      by (simp add: multiply_def toDouble_def)
  next
    case False
    with that have "toDouble (x * 100) = Finite d" and "pow2 (- 1022) \<le> \<bar>x * 100\<bar>"
      by (simp_all add: multiply_def)
    then show ?thesis
      by (rule toDouble_near)
  qed
  show ?thesis
    unfolding sp using n e by (auto simp: assemble_def)
qed

theorem getStaticProps_totalProgress_witness:
  "(\<exists>sp. getStaticProps sampleLibraries sampleUpstream (contextOf ''a'' ''en'') = Inr sp
        \<and> totalProgress (props sp) = Present (Finite 46))
   \<and> (\<exists>sp. getStaticProps sampleLibraries sampleUpstream (contextOf ''b'' ''en'') = Inr sp
        \<and> totalProgress (props sp) = Null)"
proof
  from sample_run_a obtain sp where sp: "getStaticProps sampleLibraries sampleUpstream (contextOf ''a'' ''en'') = Inr sp"
    by blast
  have "findProject (PathParams.id (params (contextOf ''a'' ''en''))) sampleProjects = Some sampleProjectA"
    by (simp add: sample_snapshot sample_findProject)
  from getStaticProps_totalProgress [OF sp sample_snapshot(2) this]
  have "totalProgress (props sp) = Present (Math_round (multiply (toDouble (4567 / 10000)) (Finite 100)))"
    by (simp add: sampleProjectA_def)
  then have "totalProgress (props sp) = Present (Finite 46)"
    by (simp only: Math_round_times_100)
  with sp show "\<exists>sp. getStaticProps sampleLibraries sampleUpstream (contextOf ''a'' ''en'') = Inr sp
        \<and> totalProgress (props sp) = Present (Finite 46)"
    by (intro exI [of _ sp]) simp
next
  from sample_run_b obtain sp where sp: "getStaticProps sampleLibraries sampleUpstream (contextOf ''b'' ''en'') = Inr sp"
    by blast
  have "findProject (PathParams.id (params (contextOf ''b'' ''en''))) sampleProjects = Some sampleProjectB"
    by (simp add: sample_snapshot sample_findProject)
  from getStaticProps_totalProgress [OF sp sample_snapshot(2) this]
  have "totalProgress (props sp) = Null"
    by (simp add: sampleProjectB_def)
  with sp show "\<exists>sp. getStaticProps sampleLibraries sampleUpstream (contextOf ''b'' ''en'') = Inr sp
        \<and> totalProgress (props sp) = Null"
    by (intro exI [of _ sp]) simp
qed

text \<open>
  C6. The \<open>totalArea\<close> of the props is 0 when the area of the record is \<open>null\<close> or
  \<open>undefined\<close>; otherwise it is \<open>Math.round\<close> of the area, which for a finite area is an
  integer at distance at most one half from it. It is a number in either case. On the
  sample data 12.3 gives 12.
\<close>

theorem getStaticProps_totalArea:
  assumes "getStaticProps libs w ctx = Inr sp"
    and "getProjectCentroids w = Inr projects"
    and "findProject (PathParams.id (params ctx)) projects = Some project"
  shows "(area_sqkm (properties project) = Null \<or> area_sqkm (properties project) = Undefined \<longrightarrow>
            totalArea (props sp) = Finite 0)
     \<and> (\<forall>a. area_sqkm (properties project) = Present a \<longrightarrow> totalArea (props sp) = Math_round a)
     \<and> (\<forall>x. area_sqkm (properties project) = Present (Finite x) \<longrightarrow>
            (\<exists>k::int. totalArea (props sp) = Finite (of_int k) \<and> \<bar>of_int k - x\<bar> \<le> 1 / 2))"
proof -
  from assms obtain t g h rs where sp: "sp = assemble libs t project g h rs"
    by (blast dest: getStaticProps_project)
  have z: "Math_round (Finite 0) = Finite 0"
    by (simp add: Math_round_def floor_eq_iff)
  show ?thesis
    unfolding sp using Math_round_nearest by (auto simp: assemble_def coalesce_def z)
qed

theorem getStaticProps_totalArea_witness:
  "(\<exists>sp. getStaticProps sampleLibraries sampleUpstream (contextOf ''a'' ''en'') = Inr sp
        \<and> totalArea (props sp) = Finite 12)
   \<and> (\<exists>sp. getStaticProps sampleLibraries sampleUpstream (contextOf ''b'' ''en'') = Inr sp
        \<and> totalArea (props sp) = Finite 0)"
proof
  from sample_run_a obtain sp where sp: "getStaticProps sampleLibraries sampleUpstream (contextOf ''a'' ''en'') = Inr sp"
    by blast
  have "findProject (PathParams.id (params (contextOf ''a'' ''en''))) sampleProjects = Some sampleProjectA"
    by (simp add: sample_snapshot sample_findProject)
  from getStaticProps_totalArea [OF sp sample_snapshot(2) this]
  have "totalArea (props sp) = Math_round (toDouble (123 / 10))"
    by (simp add: sampleProjectA_def)
  then have "totalArea (props sp) = Finite 12"
    by (simp only: Math_round_sample_area)
  with sp show "\<exists>sp. getStaticProps sampleLibraries sampleUpstream (contextOf ''a'' ''en'') = Inr sp
        \<and> totalArea (props sp) = Finite 12"
    by (intro exI [of _ sp]) simp
next
  from sample_run_b obtain sp where sp: "getStaticProps sampleLibraries sampleUpstream (contextOf ''b'' ''en'') = Inr sp"
    by blast
  have "findProject (PathParams.id (params (contextOf ''b'' ''en''))) sampleProjects = Some sampleProjectB"
    by (simp add: sample_snapshot sample_findProject)
  from getStaticProps_totalArea [OF sp sample_snapshot(2) this]
  have "totalArea (props sp) = Finite 0"
    by (simp add: sampleProjectB_def)
  with sp show "\<exists>sp. getStaticProps sampleLibraries sampleUpstream (contextOf ''b'' ''en'') = Inr sp
        \<and> totalArea (props sp) = Finite 0"
    by (intro exI [of _ sp]) simp
qed

subsection \<open>The description\<close>

text \<open>
  The description of the props is the output of \<open>remark\<close> on the content that \<open>matter\<close>
  returns, with the escaped newlines of that content replaced. The replacement leaves
  no escaped newline behind, leaves a text without one as it is, puts one line feed in
  the place of an escaped newline, and works on the two parts of a text apart unless
  an escaped newline lies across the cut.
\<close>

lemma getStaticProps_description:
  assumes "getStaticProps libs w ctx = Inr sp"
    and "getProjectCentroids w = Inr projects"
    and "findProject (PathParams.id (params ctx)) projects = Some project"
  shows "description (props sp) =
           remark_html libs
             (replace_escaped_newlines (content (matter libs (project_details (properties project)))))"
proof -
  from assms obtain t g h rs where "sp = assemble libs t project g h rs"
    by (blast dest: getStaticProps_project)
  then show ?thesis
    by (simp add: assemble_def contentHtml_def)
qed

lemma replace_escaped_newlines_head:
  "replace_escaped_newlines (b # cs) = x # xs \<Longrightarrow> x = b \<or> x = LF"
  by (cases cs) (auto split: if_splits)

lemma no_escaped_newline_left: "\<not> containsEscapedNewline (replace_escaped_newlines s)"
proof (induction s rule: replace_escaped_newlines.induct)
  case (1 a b cs)
  show ?case
  proof (cases "a = backslash \<and> b = CHR ''n''")
    case True
    with 1 show ?thesis
      by (cases "replace_escaped_newlines cs") (auto simp: LF_def backslash_def)
  next
    case False
    with 1 have ih: "\<not> containsEscapedNewline (replace_escaped_newlines (b # cs))"
      by simp
    obtain x xs where x: "replace_escaped_newlines (b # cs) = x # xs"
      by (cases cs; cases "replace_escaped_newlines (b # cs)") (auto split: if_splits)
    then have "x = b \<or> x = LF"
      by (rule replace_escaped_newlines_head)
    with False ih x show ?thesis
      by (auto simp: LF_def)
  qed
qed simp_all

lemma replace_escaped_newlines_unchanged:
  "\<not> containsEscapedNewline s \<Longrightarrow> replace_escaped_newlines s = s"
  by (induction s rule: replace_escaped_newlines.induct) auto

lemma replace_escaped_newlines_single:
  "replace_escaped_newlines [backslash, CHR ''n''] = [LF]"
  by simp

lemma replace_escaped_newlines_append:
  assumes "\<not> (s \<noteq> [] \<and> last s = backslash \<and> t \<noteq> [] \<and> hd t = CHR ''n'')"
  shows "replace_escaped_newlines (s @ t) = replace_escaped_newlines s @ replace_escaped_newlines t"
  using assms
proof (induction s rule: replace_escaped_newlines.induct)
  case (1 a b cs)
  then show ?case
    by (cases "a = backslash \<and> b = CHR ''n''") (auto split: if_splits)
qed (simp, cases t, auto)

lemma replace_escaped_newlines_between:
  "replace_escaped_newlines (s @ [backslash, CHR ''n''] @ t) =
     replace_escaped_newlines s @ LF # replace_escaped_newlines t"
proof -
  have "replace_escaped_newlines (s @ ([backslash, CHR ''n''] @ t)) =
      replace_escaped_newlines s @ replace_escaped_newlines ([backslash, CHR ''n''] @ t)"
    by (rule replace_escaped_newlines_append) (simp add: backslash_def)
  then show ?thesis
    by simp
qed

lemma replace_escaped_newlines_example:
  "replace_escaped_newlines (''# Hello'' @ [backslash, CHR ''n''] @ ''World'') = ''# Hello'' @ [LF] @ ''World''"
  by (simp add: backslash_def LF_def)

subsection \<open>A project without geometry\<close>

text \<open>
  C8. When the geometry collection is fetched and holds no record with the identifier of
  the page, a build that returns props returns them with \<open>projectGeoJSON\<close> \<open>null\<close>; and the
  build ends as it would with any other geometry collection, in the same error or in the
  same props but for \<open>projectGeoJSON\<close>. The missing geometry raises no error and leaves
  the lookup of the summary record as it is.
\<close>

theorem getStaticProps_geometry_absent:
  assumes "getProjectGeometries w = Inr geojsons"
    and "PathParams.id (params ctx) \<notin> set (project_ids geojsons)"
  shows "(\<forall>sp. getStaticProps libs w ctx = Inr sp \<longrightarrow> projectGeoJSON (props sp) = Null)
     \<and> (\<forall>others. getStaticProps libs w ctx =
            map_sum (\<lambda>e. e) (\<lambda>sp. sp\<lparr>props := (props sp)\<lparr>projectGeoJSON := Null\<rparr>\<rparr>)
              (getStaticProps libs (w\<lparr>getProjectGeometries := Inr others\<rparr>) ctx))"
proof (intro conjI allI impI)
  fix sp
  assume "getStaticProps libs w ctx = Inr sp"
  with assms show "projectGeoJSON (props sp) = Null"
    by (elim getStaticProps_InrE) (simp add: assemble_def findGeometry_absent coalesce_null_def)
next
  fix others
  from assms show "getStaticProps libs w ctx =
      map_sum (\<lambda>e. e) (\<lambda>sp. sp\<lparr>props := (props sp)\<lparr>projectGeoJSON := Null\<rparr>\<rparr>)
        (getStaticProps libs (w\<lparr>getProjectGeometries := Inr others\<rparr>) ctx)"
    unfolding getStaticProps_unfold await_def
    by (simp add: assemble_def findGeometry_absent coalesce_null_def split: sum.splits option.splits)
qed

theorem getStaticProps_geometry_absent_witness:
  "\<exists>sp. getStaticProps sampleLibraries sampleUpstream (contextOf ''b'' ''en'') = Inr sp
      \<and> projectGeoJSON (props sp) = Null
      \<and> Props.name (props sp) = ''Beta''"
proof -
  from sample_run_b obtain sp where sp: "getStaticProps sampleLibraries sampleUpstream (contextOf ''b'' ''en'') = Inr sp"
    by blast
  have "PathParams.id (params (contextOf ''b'' ''en'')) \<notin> set (project_ids sampleGeometries)"
    by (simp add: sample_snapshot project_ids_def sampleGeometries_def)
  from getStaticProps_geometry_absent [OF sample_snapshot(3) this] sp
  have "projectGeoJSON (props sp) = Null"
    by blast
  moreover have "findProject (PathParams.id (params (contextOf ''b'' ''en''))) sampleProjects = Some sampleProjectB"
    by (simp add: sample_snapshot sample_findProject)
  from getStaticProps_project [OF sp sample_snapshot(2) this]
  have "Props.name (props sp) = ProjectProperties.name (properties sampleProjectB)"
    by (auto simp: assemble_def)
  ultimately show ?thesis
    using sp by (intro exI [of _ sp]) (simp add: sampleProjectB_def)
qed

subsection \<open>Two builds of one page\<close>

text \<open>
  C9. Two builds of the same page that read the same translations, catalogue, geometries
  and history, and both return props, return the same props in every field but \<open>urls\<close>,
  and the same descriptors inside \<open>urls\<close>. The \<open>ok\<close> or \<open>size\<close> of a probe differs between
  the two only if the asset host answered that probe differently; when it answered all
  ten probes alike, in whatever order, the two builds return the same props.
\<close>

theorem getStaticProps_deterministic:
  assumes "serverSideTranslations w1 = serverSideTranslations w2"
    and "getProjectCentroids w1 = getProjectCentroids w2"
    and "getProjectGeometries w1 = getProjectGeometries w2"
    and "getProjectHistory w1 = getProjectHistory w2"
    and "getStaticProps libs w1 ctx = Inr sp1"
    and "getStaticProps libs w2 ctx = Inr sp2"
  shows "(props sp1)\<lparr>urls := []\<rparr> = (props sp2)\<lparr>urls := []\<rparr>
     \<and> map UrlDescriptor.truncate (urls (props sp1)) = map UrlDescriptor.truncate (urls (props sp2))
     \<and> (\<forall>i < 10.
           UrlInfo.ok (urls (props sp1) ! i) \<noteq> UrlInfo.ok (urls (props sp2) ! i)
           \<or> UrlInfo.size (urls (props sp1) ! i) \<noteq> UrlInfo.size (urls (props sp2) ! i) \<longrightarrow>
             outcome (fetch w1 (url (urlDescriptors (PathParams.id (params ctx)) ! i)) ''HEAD'') \<noteq>
             outcome (fetch w2 (url (urlDescriptors (PathParams.id (params ctx)) ! i)) ''HEAD''))
     \<and> ((\<forall>i < 10.
            outcome (fetch w1 (url (urlDescriptors (PathParams.id (params ctx)) ! i)) ''HEAD'') =
            outcome (fetch w2 (url (urlDescriptors (PathParams.id (params ctx)) ! i)) ''HEAD'')) \<longrightarrow>
          sp1 = sp2)"
proof -
  let ?us = "urlDescriptors (PathParams.id (params ctx))"
  from assms(5) obtain t projects project geojsons h rs1 where
    1: "serverSideTranslations w1 (locale (params ctx)) [''project'', ''common''] = Inr t"
       "getProjectCentroids w1 = Inr projects"
       "findProject (PathParams.id (params ctx)) projects = Some project"
       "getProjectGeometries w1 = Inr geojsons"
       "getProjectHistory w1 (project_id (properties project)) = Inr h"
    and p1: "Promise_all (urlResponsePromises (fetch w1) ?us) = Inr rs1"
    and sp1: "sp1 = assemble libs t project (findGeometry (PathParams.id (params ctx)) geojsons) h rs1"
    by (rule getStaticProps_InrE)
  from assms(6) have p2: "Promise_all (urlResponsePromises (fetch w2) ?us) = Inr (urls (props sp2))"
    by (rule getStaticProps_urls)
  from 1 assms(1-4) have
    "serverSideTranslations w2 (locale (params ctx)) [''project'', ''common''] = Inr t"
    "getProjectCentroids w2 = Inr projects"
    "findProject (PathParams.id (params ctx)) projects = Some project"
    "getProjectGeometries w2 = Inr geojsons"
    "getProjectHistory w2 (project_id (properties project)) = Inr h"
    by simp_all
  from this p2 have "getStaticProps libs w2 ctx =
      Inr (assemble libs t project (findGeometry (PathParams.id (params ctx)) geojsons) h (urls (props sp2)))"
    by (rule getStaticProps_InrI)
  with assms(6) have sp2: "sp2 = assemble libs t project (findGeometry (PathParams.id (params ctx)) geojsons) h (urls (props sp2))"
    by simp
  have u1: "urls (props sp1) = rs1"
    by (simp add: sp1 assemble_def)
  have a: "(props sp1)\<lparr>urls := []\<rparr> = (props sp2)\<lparr>urls := []\<rparr>"
    by (subst sp2) (simp add: sp1 assemble_def)
  from p1 p2 have b: "map UrlDescriptor.truncate (urls (props sp1)) = map UrlDescriptor.truncate (urls (props sp2))"
    unfolding u1 by (simp add: prober_catalogue_order)
  have c: "urls (props sp1) ! i = urls (props sp2) ! i"
    if "i < 10" and "outcome (fetch w1 (url (?us ! i)) ''HEAD'') = outcome (fetch w2 (url (?us ! i)) ''HEAD'')" for i
  proof -
    from p1 that(1) obtain r1 where "outcome (fetch w1 (url (?us ! i)) ''HEAD'') = Inr r1"
      and "rs1 ! i = urlInfo (?us ! i) r1"
      unfolding prober_Inr_iff by (auto simp: length_urlDescriptors)
    moreover from p2 that(1) obtain r2 where "outcome (fetch w2 (url (?us ! i)) ''HEAD'') = Inr r2"
      and "urls (props sp2) ! i = urlInfo (?us ! i) r2"
      unfolding prober_Inr_iff by (auto simp: length_urlDescriptors)
    ultimately show ?thesis
      using that(2) by (simp add: u1)
  qed
  have d: "sp1 = sp2"
    if "\<forall>i < 10. outcome (fetch w1 (url (?us ! i)) ''HEAD'') = outcome (fetch w2 (url (?us ! i)) ''HEAD'')"
  proof -
    from p1 p2 have "length (urls (props sp1)) = 10" and "length (urls (props sp2)) = 10"
      unfolding u1 prober_Inr_iff by (simp_all add: length_urlDescriptors)
    with that c have "urls (props sp1) = urls (props sp2)"
      by (auto intro: nth_equalityI)
    then have "rs1 = urls (props sp2)"
      by (simp add: u1)
    then show ?thesis
      by (subst sp2) (simp add: sp1)
  qed
  from a b c d show ?thesis
    by (intro conjI allI impI) auto
qed

theorem getStaticProps_deterministic_witness:
  "\<exists>sp1 sp2. getStaticProps sampleLibraries sampleUpstream (contextOf ''b'' ''en'') = Inr sp1
      \<and> getStaticProps sampleLibraries (sampleUpstream\<lparr>fetch := reorderedFetch\<rparr>) (contextOf ''b'' ''en'') = Inr sp2
      \<and> sp1 = sp2"
proof -
  let ?ctx = "contextOf ''b'' ''en''"
  let ?w = "sampleUpstream\<lparr>fetch := reorderedFetch\<rparr>"
  from sample_run_b obtain sp1 where sp1: "getStaticProps sampleLibraries sampleUpstream ?ctx = Inr sp1"
    by blast
  have o: "outcome (reorderedFetch u m) = outcome (sampleFetch u m)" for u m
    by (simp add: reorderedFetch_def)
  have f: "findProject (PathParams.id (params ?ctx)) sampleProjects = Some sampleProjectB"
    by (simp add: sample_snapshot sample_findProject)
  have "Promise_all (urlResponsePromises (fetch ?w) (urlDescriptors (PathParams.id (params ?ctx)))) =
      Inr (map (\<lambda>u. urlInfo u (projr (outcome (fetch ?w (url u) ''HEAD'')))) (urlDescriptors (PathParams.id (params ?ctx))))"
    by (rule prober_all_fulfilled) (simp add: o sampleFetch_fulfilled)
  from getStaticProps_InrI [of ?w ?ctx, OF _ _ f _ _ this]
  obtain sp2 where sp2: "getStaticProps sampleLibraries ?w ?ctx = Inr sp2"
    by (simp add: sample_snapshot)
  have "\<forall>i < 10.
      outcome (fetch sampleUpstream (url (urlDescriptors (PathParams.id (params ?ctx)) ! i)) ''HEAD'') =
      outcome (fetch ?w (url (urlDescriptors (PathParams.id (params ?ctx)) ! i)) ''HEAD'')"
    by (simp add: o sample_snapshot)
  with getStaticProps_deterministic [OF _ _ _ _ sp1 sp2] have "sp1 = sp2"
    by simp
  with sp1 sp2 show ?thesis
    by (intro exI [of _ sp1] exI [of _ sp2]) simp
qed

subsection \<open>The size of an asset\<close>

text \<open>
  \<open>Number\<close> on strings of the grammar and outside it, and on every string of decimal digits.
\<close>

lemma Number_examples:
  "map Number
     [''0'', ''1024'', '' 42 '', [], ''abc'', ''12px'', ''1.5'', ''.5'', ''5.'', ''.'', ''1e3'',
      ''1.25e-1'', ''-7'', ''+'', ''0x1F'', ''0b101'', ''0o17'', ''-0x10'', ''Infinity'', ''-Infinity'',
      ''1_000'', ''1 2'', ''0x'', ''e5'', ''1e''] =
     [Finite 0, Finite 1024, Finite 42, Finite 0, NaN, NaN, Finite (3 / 2), Finite (1 / 2), Finite 5,
      NaN, Finite 1000, Finite (1 / 8), Finite (- 7), NaN, Finite 31, Finite 5, Finite 15, NaN,
      Infinity, NegInfinity, NaN, NaN, NaN, NaN, NaN]"
  by (simp add: Number_defs)

lemma isDecimalDigit_cases:
  "isDecimalDigit c \<longleftrightarrow> c \<in> set ''0123456789''"
  by (simp add: isDecimalDigit_def digitOf_def hexDigit_def)

lemma isDecimalDigit_not_space: "isDecimalDigit c \<Longrightarrow> \<not> isStrWhiteSpaceChar c"
  by (auto simp: isDecimalDigit_cases isStrWhiteSpaceChar_def)

lemma dropWhile_unchanged: "s \<noteq> [] \<Longrightarrow> \<not> P (hd s) \<Longrightarrow> dropWhile P s = s"
  by (cases s) simp_all

lemma trim_digits:
  assumes "s \<noteq> []" and "list_all isDecimalDigit s"
  shows "trim s = s"
proof -
  from assms(1) have "hd s \<in> set s" and "last s \<in> set s"
    by simp_all
  with assms(2) have "isDecimalDigit (hd s)" and "isDecimalDigit (last s)"
    unfolding list_all_iff by blast+
  then have h: "\<not> isStrWhiteSpaceChar (hd s)" and l: "\<not> isStrWhiteSpaceChar (last s)"
    by (simp_all only: isDecimalDigit_not_space not_False_eq_True)
  from assms(1) h have 1: "dropWhile isStrWhiteSpaceChar s = s"
    by (rule dropWhile_unchanged)
  from assms(1) l have "rev s \<noteq> []" and "\<not> isStrWhiteSpaceChar (hd (rev s))"
    by (simp_all add: hd_rev)
  then have 2: "dropWhile isStrWhiteSpaceChar (rev s) = rev s"
    by (rule dropWhile_unchanged)
  show ?thesis
    unfolding trim_def 1 2 by simp
qed

lemma parseDigits_digits:
  assumes "s \<noteq> []" and "list_all isDecimalDigit s"
  shows "\<exists>n. parseDigits 10 s = Some n"
proof -
  from assms(2) have "\<exists>ds. those (map (digitOf 10) s) = Some ds"
    by (induction s) (auto simp: isDecimalDigit_def)
  with assms(1) show ?thesis
    by (auto simp: parseDigits_def)
qed

lemma Number_decimal_digits:
  assumes "s \<noteq> []" and "list_all isDecimalDigit s"
  shows "\<exists>n. parseDigits 10 s = Some n \<and> Number s = Finite (of_nat n)"
proof -
  from assms obtain n where n: "parseDigits 10 s = Some n"
    by (blast dest: parseDigits_digits)
  obtain c cs where s: "s = c # cs"
    using assms(1) by (cases s) auto
  with assms(2) have c: "isDecimalDigit c" and cs: "list_all isDecimalDigit cs"
    by simp_all
  have nd: "parseNonDecimal s = None"
  proof (cases cs)
    case Nil
    with s show ?thesis by (simp add: parseNonDecimal_def)
  next
    case (Cons p ds)
    with cs have "isDecimalDigit p" by simp
    then have "p \<notin> set ''bBoOxX''"
      by (auto simp: isDecimalDigit_cases)
    with s Cons show ?thesis
      by (simp add: parseNonDecimal_def)
  qed
  from c have sign: "c \<noteq> CHR ''+''" "c \<noteq> CHR ''-''"
    by (auto simp: isDecimalDigit_cases)
  from c s have inf: "s \<noteq> ''Infinity''"
    by (auto simp: isDecimalDigit_cases)
  from assms(2) have tw: "takeWhile isDecimalDigit s = s" and dw: "dropWhile isDecimalDigit s = []"
    by (simp_all add: list_all_iff)
  have "parseUnsignedDecimal s = Some (Finite (of_nat n))"
    using inf by (simp add: parseUnsignedDecimal_def tw dw n scale10_def)
  with sign s have "parseDecimal s = Some (Finite (of_nat n))"
    by (simp add: parseDecimal_def)
  with nd assms show ?thesis
    using n by (simp add: Number_def trim_digits)
qed

text \<open>
  C10. In the props that a build returns, the size of each of the ten probes is
  \<open>Number\<close> of the content-length header of its response, with the string \<open>0\<close> in place
  of an absent header, whatever the status of the response. On the sample data a header
  that is not a number gives \<open>NaN\<close>, and a response with a non-success status and the
  header 1234 gives 1234.
\<close>

theorem getStaticProps_size_from_content_length:
  assumes "getStaticProps libs w ctx = Inr sp" and "i < 10"
  shows "\<exists>res. outcome (fetch w (url (urlDescriptors (PathParams.id (params ctx)) ! i)) ''HEAD'') = Inr res
       \<and> UrlInfo.size (urls (props sp) ! i) =
           Number (case headers res ''content-length'' of Present s \<Rightarrow> s | _ \<Rightarrow> ''0'')
       \<and> (headers res ''content-length'' = Null \<longrightarrow> UrlInfo.size (urls (props sp) ! i) = Finite 0)
       \<and> (\<forall>s. headers res ''content-length'' = Present s \<longrightarrow>
             UrlInfo.size (urls (props sp) ! i) = Number s)
       \<and> UrlInfo.ok (urls (props sp) ! i) = Response.ok res"
proof -
  let ?us = "urlDescriptors (PathParams.id (params ctx))"
  from assms(1) have "Promise_all (urlResponsePromises (fetch w) ?us) = Inr (urls (props sp))"
    by (rule getStaticProps_urls)
  with assms(2) obtain res where r: "outcome (fetch w (url (?us ! i)) ''HEAD'') = Inr res"
    and u: "urls (props sp) ! i = urlInfo (?us ! i) res"
    unfolding prober_Inr_iff by (auto simp: length_urlDescriptors)
  show ?thesis
    unfolding u using r by (auto simp: urlInfo_def coalesce_def Number_zero split: nullish.splits)
qed

theorem getStaticProps_size_from_content_length_witness:
  "\<exists>sp. getStaticProps sampleLibraries sampleUpstream (contextOf ''b'' ''en'') = Inr sp
      \<and> UrlInfo.ok (urls (props sp) ! 2) = False
      \<and> UrlInfo.size (urls (props sp) ! 2) = Finite 1234
      \<and> UrlInfo.size (urls (props sp) ! 3) = Finite 0
      \<and> UrlInfo.ok (urls (props sp) ! 5) = True
      \<and> UrlInfo.size (urls (props sp) ! 5) = NaN"
proof -
  let ?ctx = "contextOf ''b'' ''en''"
  from sample_run_b obtain sp where sp: "getStaticProps sampleLibraries sampleUpstream ?ctx = Inr sp"
    by blast
  have o: "outcome (fetch sampleUpstream (url (urlDescriptors (PathParams.id (params ?ctx)) ! 2)) ''HEAD'') =
        Inr \<lparr>Response.ok = False, headers = contentLength ''1234''\<rparr>"
      "outcome (fetch sampleUpstream (url (urlDescriptors (PathParams.id (params ?ctx)) ! 3)) ''HEAD'') =
        Inr \<lparr>Response.ok = False, headers = (\<lambda>h. Null)\<rparr>"
      "outcome (fetch sampleUpstream (url (urlDescriptors (PathParams.id (params ?ctx)) ! 5)) ''HEAD'') =
        Inr \<lparr>Response.ok = True, headers = contentLength ''abc''\<rparr>"
    by (simp_all add: sample_snapshot urlDescriptors_def sampleFetch_def)
  have n: "Number ''1234'' = Finite 1234" "Number ''abc'' = NaN"
    by (simp_all add: Number_defs)
  from getStaticProps_size_from_content_length [OF sp, of 2] o(1)
  have "UrlInfo.ok (urls (props sp) ! 2) = False" and "UrlInfo.size (urls (props sp) ! 2) = Finite 1234"
    by (auto simp: contentLength_def n)
  moreover from getStaticProps_size_from_content_length [OF sp, of 3] o(2)
  have "UrlInfo.size (urls (props sp) ! 3) = Finite 0"
    by auto
  moreover from getStaticProps_size_from_content_length [OF sp, of 5] o(3)
  have "UrlInfo.ok (urls (props sp) ! 5) = True" and "UrlInfo.size (urls (props sp) ! 5) = NaN"
    by (auto simp: contentLength_def n)
  ultimately show ?thesis
    using sp by (intro exI [of _ sp]) simp
qed

end
